theory Spec2Isabelle
  imports Main "HOL-Library.Word"
begin

section \<open>The trie storage manager\<close>

text \<open>
  A shallow embedding of \<^verbatim>\<open>trieStorageManager\<close> (package \<^verbatim>\<open>trie\<close>): the lookup
  chain of \<^verbatim>\<open>Get\<close>, \<^verbatim>\<open>Put\<close>, the pruning-block counter, the submission of
  snapshot and checkpoint requests, the two procedures of the background worker,
  snapshot discovery and \<^verbatim>\<open>Close\<close>.

  The manager is a record that every operation takes and returns. The mutex only
  serialises the operations and is not modelled: every function below is one critical
  section, or a sequence of them run by one goroutine.
\<close>

subsection \<open>Values, errors and log lines\<close>

text \<open>
  A \<^verbatim>\<open>[]byte\<close> is a list of bytes. The code only tests \<^verbatim>\<open>len(val) != 0\<close> and
  \<^verbatim>\<open>bytes.Equal\<close>, which do not tell the nil slice from the empty one: both are \<open>[]\<close>.
\<close>

type_synonym bytes = "8 word list"

text \<open>
  A Go \<^verbatim>\<open>error\<close> is an \<open>error option\<close>, \<open>None\<close> for nil. \<open>ErrWrapped msg e\<close> is
  \<^verbatim>\<open>fmt.Errorf(msg + "%w", e)\<close>; \<open>ErrSyntax\<close> and \<open>ErrRange\<close> are the two errors of
  \<^verbatim>\<open>strconv.Atoi\<close>; \<open>ErrNotExist\<close> is the error \<^verbatim>\<open>os.IsNotExist\<close> recognises;
  \<open>ErrOther\<close> stands for any error of a collaborator.
\<close>

datatype error =
    ErrKeyNotFound
  | ErrContextClosing
  | ErrNotExist
  | ErrSyntax string
  | ErrRange string
  | ErrOther string
  | ErrWrapped string error

datatype logLevel = LogTrace | LogDebug | LogError

subsection \<open>Collaborators\<close>

text \<open>
  \<^verbatim>\<open>common.DBWriteCacher\<close> is an interface; its implementations are not part of the
  manager. A persister is modelled by what the manager can observe of it:
  \<open>getResult p key\<close> is the pair \<^verbatim>\<open>Get(key)\<close> returns now (any value with any error),
  \<open>closeCalls p\<close> counts the calls of \<^verbatim>\<open>Close()\<close> it has received, and
  \<open>closeResult p n\<close> is what \<^verbatim>\<open>Close()\<close> returns when \<open>n\<close> calls came before.
\<close>

record persister =
  getResult :: "bytes \<Rightarrow> bytes \<times> error option"
  closeResult :: "nat \<Rightarrow> error option"
  closeCalls :: nat

definition persisterClose :: "persister \<Rightarrow> persister \<times> error option" where
  "persisterClose p = (p\<lparr>closeCalls := Suc (closeCalls p)\<rparr>, closeResult p (closeCalls p))"

text \<open>The owned storers, as \<^verbatim>\<open>Close\<close> reaches them; a snapshot by its index in the list.\<close>

datatype storerRef = LegacyStorer | SnapshotDb nat | MainStorer | CheckpointsStorer

text \<open>
  \<^verbatim>\<open>CheckpointHashesHolder\<close> is an interface too: the holder is the list of the
  mutating calls the manager has made on it.
\<close>

datatype holderCall = RemoveCommitted bytes

text \<open>
  A leaves channel is shared with the caller, so the channels live in a store indexed by
  a channel id; \<^verbatim>\<open>nil\<close> is \<open>None\<close>. Go panics on \<^verbatim>\<open>close\<close> of a closed channel.
\<close>

datatype chanState = ChanOpen | ChanClosed

datatype panic = CloseOfClosedChannel

record snapshotsQueueEntry =
  rootHash :: bytes
  newDb :: bool
  leavesChan :: "nat option"

subsection \<open>The manager\<close>

text \<open>
  The fields of the struct, in its order. The two request channels are the lists of
  their buffered entries; \<open>cancelled\<close> is the context of the worker after
  \<^verbatim>\<open>cancelFunc()\<close>; \<open>closer\<close> is whether the \<^verbatim>\<open>SafeCloser\<close> has fired. The last three
  fields are the manager's surroundings: the store of leaves channels, the lines
  written to the log, and the order in which \<^verbatim>\<open>Close()\<close> reached the persisters.
\<close>

record trieStorageManager =
  mainStorer :: persister
  pruningBlockingOps :: "32 word"
  snapshotReq :: "snapshotsQueueEntry list"
  checkpointReq :: "snapshotsQueueEntry list"
  checkpointsStorer :: persister
  checkpointHashesHolder :: "holderCall list"
  cancelled :: bool
  closer :: bool
  closed :: bool
  db :: persister
  snapshots :: "persister list"
  snapshotId :: int
  leavesChans :: "nat \<Rightarrow> chanState"
  logged :: "(logLevel \<times> string) list"
  closeOrder :: "storerRef list"

definition logLine :: "logLevel \<Rightarrow> string \<Rightarrow> trieStorageManager \<Rightarrow> trieStorageManager" where
  "logLine lvl msg tsm = tsm\<lparr>logged := logged tsm @ [(lvl, msg)]\<rparr>"

subsection \<open>Get and Put\<close>

text \<open>
  The loop \<^verbatim>\<open>for i := len(tsm.snapshots) - 1; i >= 0; i--\<close> of \<^verbatim>\<open>getFromOtherStorers\<close>:
  the argument is \<open>i + 1\<close>, and at 0 the loop is over and the function returns
  \<^verbatim>\<open>nil, ErrKeyNotFound\<close>.
\<close>

fun getFromSnapshots :: "persister list \<Rightarrow> nat \<Rightarrow> bytes \<Rightarrow> bytes \<times> error option" where
  "getFromSnapshots snaps 0 key = ([], Some ErrKeyNotFound)"
| "getFromSnapshots snaps (Suc i) key =
     (let val = fst (getResult (snaps ! i) key)
      in if length val \<noteq> 0 then (val, None) else getFromSnapshots snaps i key)"

definition getFromOtherStorers :: "trieStorageManager \<Rightarrow> bytes \<Rightarrow> bytes \<times> error option" where
  "getFromOtherStorers tsm key =
     (let val = fst (getResult (db tsm) key)
      in if length val \<noteq> 0 then (val, None)
         else let val = fst (getResult (checkpointsStorer tsm) key)
              in if length val \<noteq> 0 then (val, None)
                 else getFromSnapshots (snapshots tsm) (length (snapshots tsm)) key)"

definition Get :: "trieStorageManager \<Rightarrow> bytes \<Rightarrow> bytes \<times> error option" where
  "Get tsm key =
     (let val = fst (getResult (mainStorer tsm) key)
      in if length val \<noteq> 0 then (val, None) else getFromOtherStorers tsm key)"

text \<open>
  The storers in the order the specification lists them: main, legacy, checkpoints,
  then the snapshot databases from the newest (the last of the list) to the oldest.
\<close>

definition lookupOrder :: "trieStorageManager \<Rightarrow> persister list" where
  "lookupOrder tsm = mainStorer tsm # db tsm # checkpointsStorer tsm # rev (snapshots tsm)"

text \<open>The value each storer of the order yields for a key, its error dropped.\<close>

definition layerValues :: "trieStorageManager \<Rightarrow> bytes \<Rightarrow> bytes list" where
  "layerValues tsm key = map (\<lambda>p. fst (getResult p key)) (lookupOrder tsm)"

text \<open>
  \<^verbatim>\<open>Put\<close> hands the pair to the main storer. What \<^verbatim>\<open>Put\<close> of the main storer does is
  its implementation's business: \<open>storerPut\<close> is that implementation, from the
  persister, the key and the value to the persister afterwards and the error.
\<close>

definition Put ::
  "(persister \<Rightarrow> bytes \<Rightarrow> bytes \<Rightarrow> persister \<times> error option) \<Rightarrow>
   bytes \<Rightarrow> bytes \<Rightarrow> trieStorageManager \<Rightarrow> trieStorageManager \<times> error option" where
  "Put storerPut key val tsm =
     (let tsm1 = logLine LogTrace ''put hash in tsm'' tsm;
          (p, err) = storerPut (mainStorer tsm1) key val
      in (tsm1\<lparr>mainStorer := p\<rparr>, err))"

subsection \<open>The pruning-block counter\<close>

text \<open>\<^verbatim>\<open>pruningBlockingOps\<close> is a \<^verbatim>\<open>uint32\<close>: \<^verbatim>\<open>++\<close> and \<^verbatim>\<open>--\<close> wrap around.\<close>

definition EnterPruningBufferingMode :: "trieStorageManager \<Rightarrow> trieStorageManager" where
  "EnterPruningBufferingMode tsm =
     logLine LogTrace ''enter pruning buffering state''
       (tsm\<lparr>pruningBlockingOps := pruningBlockingOps tsm + 1\<rparr>)"

definition ExitPruningBufferingMode :: "trieStorageManager \<Rightarrow> trieStorageManager" where
  "ExitPruningBufferingMode tsm =
     (if pruningBlockingOps tsm < 1
      then logLine LogError ''ExitPruningBufferingMode called too many times'' tsm
      else logLine LogTrace ''exit pruning buffering state''
             (tsm\<lparr>pruningBlockingOps := pruningBlockingOps tsm - 1\<rparr>))"

definition IsPruningBlocked :: "trieStorageManager \<Rightarrow> bool" where
  "IsPruningBlocked tsm = (pruningBlockingOps tsm \<noteq> 0)"

definition isClosed :: "trieStorageManager \<Rightarrow> bool" where
  "isClosed tsm = closed tsm"

subsection \<open>Submitting snapshot and checkpoint requests\<close>

definition safelyCloseChan :: "nat option \<Rightarrow> trieStorageManager \<Rightarrow> panic + trieStorageManager" where
  "safelyCloseChan ch tsm =
     (case ch of
        None \<Rightarrow> Inr tsm
      | Some c \<Rightarrow>
          if leavesChans tsm c = ChanClosed then Inl CloseOfClosedChannel
          else Inr (tsm\<lparr>leavesChans := (leavesChans tsm)(c := ChanClosed)\<rparr>))"

text \<open>
  The \<^verbatim>\<open>select\<close> at the end of \<^verbatim>\<open>TakeSnapshot\<close> and \<^verbatim>\<open>SetCheckpoint\<close> waits until the
  request channel takes the entry or the closer has fired. Which of the two happens is
  the scheduler's choice and an input of the model.
\<close>

datatype selectBranch = RequestSent | CloserFired

text \<open>
  \<^verbatim>\<open>EmptyTrieHash\<close> is a variable of the package declared in another file: the first
  argument of the two functions.
\<close>

definition TakeSnapshot ::
  "bytes \<Rightarrow> selectBranch \<Rightarrow> bytes \<Rightarrow> bool \<Rightarrow> nat option \<Rightarrow> trieStorageManager \<Rightarrow>
   panic + trieStorageManager" where
  "TakeSnapshot EmptyTrieHash branch root isNewDb ch tsm =
     (if isClosed tsm then safelyCloseChan ch tsm
      else if root = EmptyTrieHash
           then safelyCloseChan ch (logLine LogTrace ''should not snapshot an empty trie'' tsm)
      else let tsm1 = EnterPruningBufferingMode tsm;
               tsm2 = tsm1\<lparr>checkpointHashesHolder :=
                        checkpointHashesHolder tsm1 @ [RemoveCommitted root]\<rparr>;
               snapshotEntry = \<lparr>rootHash = root, newDb = isNewDb, leavesChan = ch\<rparr>
           in case branch of
                RequestSent \<Rightarrow> Inr (tsm2\<lparr>snapshotReq := snapshotReq tsm2 @ [snapshotEntry]\<rparr>)
              | CloserFired \<Rightarrow> safelyCloseChan ch (ExitPruningBufferingMode tsm2))"

definition SetCheckpoint ::
  "bytes \<Rightarrow> selectBranch \<Rightarrow> bytes \<Rightarrow> nat option \<Rightarrow> trieStorageManager \<Rightarrow>
   panic + trieStorageManager" where
  "SetCheckpoint EmptyTrieHash branch root ch tsm =
     (if isClosed tsm then safelyCloseChan ch tsm
      else if root = EmptyTrieHash
           then safelyCloseChan ch (logLine LogTrace ''should not set checkpoint for empty trie'' tsm)
      else let tsm1 = EnterPruningBufferingMode tsm;
               checkpointEntry = \<lparr>rootHash = root, newDb = False, leavesChan = ch\<rparr>
           in case branch of
                RequestSent \<Rightarrow> Inr (tsm1\<lparr>checkpointReq := checkpointReq tsm1 @ [checkpointEntry]\<rparr>)
              | CloserFired \<Rightarrow> safelyCloseChan ch (ExitPruningBufferingMode tsm1))"

subsection \<open>The procedures of the background worker\<close>

definition finishOperation ::
  "snapshotsQueueEntry \<Rightarrow> string \<Rightarrow> trieStorageManager \<Rightarrow> panic + trieStorageManager" where
  "finishOperation snapshotEntry message tsm =
     safelyCloseChan (leavesChan snapshotEntry)
       (logLine LogTrace message (ExitPruningBufferingMode tsm))"

text \<open>
  The node walk is a collaborator the manager consumes as an opaque operation: a
  decoded root node is modelled by the error its \<^verbatim>\<open>commitSnapshot\<close> and its
  \<^verbatim>\<open>commitCheckpoint\<close> return. What the walk writes into the storers and sends on the
  leaves channel is not modelled; it neither closes the channel nor calls the
  counter's operations.
\<close>

record snapshotNode =
  commitSnapshot :: "error option"
  commitCheckpoint :: "error option"

text \<open>
  \<^verbatim>\<open>getNodeFromDBAndDecode\<close> (another file of the package) reads the root hash through
  the manager and decodes the node: the parameter \<open>decode\<close>, given the root hash
  and the manager.
\<close>

definition newSnapshotNode ::
  "(bytes \<Rightarrow> trieStorageManager \<Rightarrow> error + snapshotNode) \<Rightarrow> trieStorageManager \<Rightarrow> bytes \<Rightarrow>
   error + snapshotNode" where
  "newSnapshotNode decode tsm root =
     (case decode root tsm of Inl err \<Rightarrow> Inl err | Inr newRoot \<Rightarrow> Inr newRoot)"

text \<open>
  \<^verbatim>\<open>defer tsm.finishOperation(...)\<close> runs when the body returns, on every path: the body
  is the argument of \<open>finishOperation\<close>. \<open>stsmErr\<close> is the error of
  \<^verbatim>\<open>newSnapshotTrieStorageManager\<close> (another file of the package).
\<close>

definition takeSnapshot ::
  "(bytes \<Rightarrow> trieStorageManager \<Rightarrow> error + snapshotNode) \<Rightarrow> error option \<Rightarrow>
   snapshotsQueueEntry \<Rightarrow> trieStorageManager \<Rightarrow> panic + trieStorageManager" where
  "takeSnapshot decode stsmErr snapshotEntry tsm =
     finishOperation snapshotEntry ''trie snapshot finished''
       (let tsm1 = logLine LogTrace ''trie snapshot started'' tsm
        in case newSnapshotNode decode tsm (rootHash snapshotEntry) of
             Inl err \<Rightarrow>
               logLine LogError ''takeSnapshot: trie storage manager: newSnapshotTrie'' tsm1
           | Inr newRoot \<Rightarrow>
               if stsmErr \<noteq> None
               then logLine LogError
                      ''takeSnapshot: trie storage manager: newSnapshotTrieStorageManager'' tsm1
               else let err = commitSnapshot newRoot
                    in if err = Some ErrContextClosing
                       then logLine LogDebug
                              ''context closing while in commitSnapshot operation'' tsm1
                       else if err \<noteq> None
                            then logLine LogError ''trie storage manager: commit'' tsm1
                            else tsm1)"

definition takeCheckpoint ::
  "(bytes \<Rightarrow> trieStorageManager \<Rightarrow> error + snapshotNode) \<Rightarrow>
   snapshotsQueueEntry \<Rightarrow> trieStorageManager \<Rightarrow> panic + trieStorageManager" where
  "takeCheckpoint decode checkpointEntry tsm =
     finishOperation checkpointEntry ''trie checkpoint finished''
       (let tsm1 = logLine LogTrace ''trie checkpoint started'' tsm
        in case newSnapshotNode decode tsm (rootHash checkpointEntry) of
             Inl err \<Rightarrow>
               logLine LogError ''takeCheckpoint: trie storage manager: newSnapshotTrie'' tsm1
           | Inr newRoot \<Rightarrow>
               let err = commitCheckpoint newRoot
               in if err = Some ErrContextClosing
                  then logLine LogDebug
                         ''context closing while in commitCheckpoint operation'' tsm1
                  else if err \<noteq> None
                       then logLine LogError ''trie storage manager: commit'' tsm1
                       else tsm1)"

subsection \<open>Close\<close>

text \<open>One round of \<^verbatim>\<open>for _, sdb := range tsm.snapshots\<close>, at index \<open>i\<close>.\<close>

definition closeSnapshot ::
  "nat \<Rightarrow> trieStorageManager \<times> error option \<Rightarrow> trieStorageManager \<times> error option" where
  "closeSnapshot i s =
     (let tsm = fst s; err = snd s;
          (sdb, errSnapshotClose) = persisterClose (snapshots tsm ! i);
          tsm1 = tsm\<lparr>snapshots := (snapshots tsm)[i := sdb],
                     closeOrder := closeOrder tsm @ [SnapshotDb i]\<rparr>
      in if errSnapshotClose \<noteq> None
         then (logLine LogError ''trieStorageManager.Close snapshotClose'' tsm1, errSnapshotClose)
         else (tsm1, err))"

text \<open>
  Modelled from the spec: the \<^verbatim>\<open>SafeCloser\<close>, which comes from a library, is "a one-shot
  broadcast primitive exposing Close() (idempotent)" that "must never block". Its state
  is whether the signal has fired; \<^verbatim>\<open>Close()\<close> fires it, and does nothing and does not
  panic when it has fired already.
\<close>

definition safeCloserClose :: "bool \<Rightarrow> bool" where
  "safeCloserClose fired = (if fired then fired else True)"

text \<open>
  \<^verbatim>\<open>cancelFunc()\<close> of a context may be called any number of times. The deferred
  \<^verbatim>\<open>tsm.closer.Close()\<close> runs last, after the result has been computed.
\<close>

definition Close :: "trieStorageManager \<Rightarrow> trieStorageManager \<times> error option" where
  "Close tsm =
     (let tsm1 = tsm\<lparr>cancelled := True, closed := True\<rparr>;
          (legacy, err) = persisterClose (db tsm1);
          tsm2 = tsm1\<lparr>db := legacy, closeOrder := closeOrder tsm1 @ [LegacyStorer]\<rparr>;
          (tsm3, err) = fold closeSnapshot [0..<length (snapshots tsm2)] (tsm2, err);
          (main, errMainStorerClose) = persisterClose (mainStorer tsm3);
          tsm4 = tsm3\<lparr>mainStorer := main, closeOrder := closeOrder tsm3 @ [MainStorer]\<rparr>;
          (tsm5, err) =
            (if errMainStorerClose \<noteq> None
             then (logLine LogError ''trieStorageManager.Close mainStorerClose'' tsm4,
                   errMainStorerClose)
             else (tsm4, err));
          (checkpoints, errCheckpointsStorerClose) = persisterClose (checkpointsStorer tsm5);
          tsm6 = tsm5\<lparr>checkpointsStorer := checkpoints,
                      closeOrder := closeOrder tsm5 @ [CheckpointsStorer]\<rparr>;
          (tsm7, err) =
            (if errCheckpointsStorerClose \<noteq> None
             then (logLine LogError ''trieStorageManager.Close checkpointsStorerClose'' tsm6,
                   errCheckpointsStorerClose)
             else (tsm6, err))
      in (tsm7\<lparr>closer := safeCloserClose (closer tsm7)\<rparr>,
          case err of
            Some e \<Rightarrow> Some (ErrWrapped ''trieStorageManager close failed: '' e)
          | None \<Rightarrow> None))"

text \<open>The errors an error carries: itself and, through \<^verbatim>\<open>%w\<close>, the errors it wraps.\<close>

fun errorChain :: "error \<Rightarrow> error list" where
  "errorChain (ErrWrapped msg e) = ErrWrapped msg e # errorChain e"
| "errorChain e = [e]"

subsection \<open>Snapshot discovery\<close>

record DBConfig =
  FilePath :: string
  Type :: string
  BatchDelaySeconds :: int
  MaxBatchSize :: int
  MaxOpenFiles :: int

record ArgDB =
  DBType :: string
  Path :: string
  argBatchDelaySeconds :: int
  argMaxBatchSize :: int
  argMaxOpenFiles :: int

record fileInfo =
  Name :: string
  IsDir :: bool

text \<open>
  The file system and the database library, as discovery calls them: \<^verbatim>\<open>os.Stat\<close> (its
  error), \<^verbatim>\<open>ioutil.ReadDir\<close>, \<^verbatim>\<open>path.Join\<close> and \<^verbatim>\<open>storageUnit.NewDB\<close>.
\<close>

record environment =
  Stat :: "string \<Rightarrow> error option"
  ReadDir :: "string \<Rightarrow> error + fileInfo list"
  Join :: "string \<Rightarrow> string \<Rightarrow> string"
  NewDB :: "ArgDB \<Rightarrow> error + persister"

text \<open>
  \<^verbatim>\<open>ioutil.ReadDir\<close> returns the entries sorted by filename, strings compared byte by
  byte. \<open>ReadDir\<close> above may answer any list; \<open>sortedByName\<close> holds of the lists the
  library can answer.
\<close>

fun nameLess :: "string \<Rightarrow> string \<Rightarrow> bool" where
  "nameLess [] [] = False"
| "nameLess [] (d # ds) = True"
| "nameLess (c # cs) [] = False"
| "nameLess (c # cs) (d # ds) =
     ((of_char c :: nat) < of_char d \<or> (c = d \<and> nameLess cs ds))"

definition sortedByName :: "fileInfo list \<Rightarrow> bool" where
  "sortedByName files = sorted_wrt (\<lambda>f g. nameLess (Name f) (Name g)) files"

text \<open>
  \<^verbatim>\<open>strconv.Atoi\<close>: an optional sign, then one decimal digit or more; a syntax error
  otherwise, a range error outside the 64 bits of \<^verbatim>\<open>int\<close>.
\<close>

definition isDigit :: "char \<Rightarrow> bool" where
  "isDigit c = (48 \<le> (of_char c :: nat) \<and> (of_char c :: nat) \<le> 57)"

definition decimal :: "string \<Rightarrow> int" where
  "decimal ds = foldl (\<lambda>n c. n * 10 + (int (of_char c) - 48)) 0 ds"

definition maxInt :: int where
  "maxInt = 9223372036854775807"

definition minInt :: int where
  "minInt = - 9223372036854775808"

definition Atoi :: "string \<Rightarrow> error + int" where
  "Atoi s =
     (let signed = (s \<noteq> [] \<and> (hd s = CHR ''-'' \<or> hd s = CHR ''+''));
          ds = (if signed then tl s else s)
      in if ds = [] \<or> \<not> list_all isDigit ds then Inl (ErrSyntax s)
         else let n = (if hd s = CHR ''-'' then - decimal ds else decimal ds)
              in if n < minInt \<or> maxInt < n then Inl (ErrRange s) else Inr n)"

text \<open>\<^verbatim>\<open>snapshotId++\<close> on an \<^verbatim>\<open>int\<close> of 64 bits.\<close>

definition intInc :: "int \<Rightarrow> int" where
  "intInc n = (if n = maxInt then minInt else n + 1)"

definition IsNotExist :: "error option \<Rightarrow> bool" where
  "IsNotExist err = (err = Some ErrNotExist)"

definition directoryExists :: "environment \<Rightarrow> string \<Rightarrow> bool" where
  "directoryExists env path = (\<not> IsNotExist (Stat env path))"

text \<open>
  \<^verbatim>\<open>snapshotsMap\<close> is a Go map: a list of pairs with one pair a key, a later store to a
  key replacing the value. \<^verbatim>\<open>snapshotDb\<close> wraps the persister and is the persister here.
\<close>

type_synonym snapshotsMap = "(int \<times> persister) list"

definition mapStore :: "int \<Rightarrow> persister \<Rightarrow> snapshotsMap \<Rightarrow> snapshotsMap" where
  "mapStore key v m = (if key \<in> set (map fst m)
                       then map (\<lambda>(k, w). if k = key then (k, v) else (k, w)) m
                       else m @ [(key, v)])"

definition orderedKeys :: "snapshotsMap \<Rightarrow> int list" where
  "orderedKeys m = sort (map fst m)"

definition getOrderedSnapshots :: "snapshotsMap \<Rightarrow> persister list" where
  "getOrderedSnapshots m = map (\<lambda>key. the (map_of m key)) (orderedKeys m)"

text \<open>
  The variables of \<^verbatim>\<open>getSnapshotsAndSnapshotId\<close> and the lines it logs. The loop over
  \<open>files\<close> returns them with the error that stopped it, \<open>None\<close> when it ran to the end.
\<close>

record discovery =
  foundMap :: snapshotsMap
  nextId :: int
  lines :: "(logLevel \<times> string) list"

fun scanFiles ::
  "environment \<Rightarrow> DBConfig \<Rightarrow> fileInfo list \<Rightarrow> discovery \<Rightarrow> discovery \<times> error option" where
  "scanFiles env cfg [] d = (d, None)"
| "scanFiles env cfg (f # files) d =
     (if \<not> IsDir f then scanFiles env cfg files d
      else case Atoi (Name f) of
             Inl err \<Rightarrow> (d, Some err)
           | Inr snapshotName \<Rightarrow>
               (case NewDB env \<lparr>DBType = Type cfg,
                                Path = Join env (FilePath cfg) (Name f),
                                argBatchDelaySeconds = BatchDelaySeconds cfg,
                                argMaxBatchSize = MaxBatchSize cfg,
                                argMaxOpenFiles = MaxOpenFiles cfg\<rparr> of
                  Inl err \<Rightarrow> (d, Some err)
                | Inr newSnapshot \<Rightarrow>
                    scanFiles env cfg files
                      (d\<lparr>nextId := (if snapshotName > nextId d then snapshotName else nextId d),
                         lines := lines d @ [(LogDebug, ''restored snapshot'')],
                         foundMap := mapStore snapshotName newSnapshot (foundMap d)\<rparr>)))"

text \<open>The variables at the \<^verbatim>\<open>return\<close> that ends the function, and the error returned.\<close>

definition discoverSnapshots :: "environment \<Rightarrow> DBConfig \<Rightarrow> discovery \<times> error option" where
  "discoverSnapshots env cfg =
     (let d0 = \<lparr>foundMap = [], nextId = 0, lines = []\<rparr>
      in if \<not> directoryExists env (FilePath cfg) then (d0, None)
         else case ReadDir env (FilePath cfg) of
                Inl err \<Rightarrow> (d0\<lparr>lines := [(LogDebug, ''there is no snapshot in path'')]\<rparr>, Some err)
              | Inr files \<Rightarrow>
                  (case scanFiles env cfg files d0 of
                     (d, Some err) \<Rightarrow> (d, Some err)
                   | (d, None) \<Rightarrow>
                       (if length (foundMap d) \<noteq> 0 then d\<lparr>nextId := intInc (nextId d)\<rparr> else d,
                        None)))"

definition getSnapshotsAndSnapshotId ::
  "environment \<Rightarrow> DBConfig \<Rightarrow> persister list \<times> int \<times> error option" where
  "getSnapshotsAndSnapshotId env cfg =
     (let (d, err) = discoverSnapshots env cfg
      in (getOrderedSnapshots (foundMap d), nextId d, err))"

section \<open>Notions of the statements\<close>

subsection \<open>Log lines and leaves channels\<close>

text \<open>The lines of level \<^verbatim>\<open>Error\<close> in the log.\<close>

definition errorLines :: "trieStorageManager \<Rightarrow> (logLevel \<times> string) list" where
  "errorLines tsm = filter (\<lambda>l. fst l = LogError) (logged tsm)"

text \<open>The store of channels after \<^verbatim>\<open>close(ch)\<close>, and whether \<open>ch\<close> can still be closed.\<close>

definition closeIn :: "nat option \<Rightarrow> (nat \<Rightarrow> chanState) \<Rightarrow> nat \<Rightarrow> chanState" where
  "closeIn ch chans = (case ch of None \<Rightarrow> chans | Some c \<Rightarrow> chans(c := ChanClosed))"

definition stillOpen :: "nat option \<Rightarrow> trieStorageManager \<Rightarrow> bool" where
  "stillOpen ch tsm = (case ch of None \<Rightarrow> True | Some c \<Rightarrow> leavesChans tsm c = ChanOpen)"

text \<open>
  A submission is refused when the call returns and has changed neither request queue,
  nor the counter, nor the holder, and has closed the channel it was given.
\<close>

definition submissionRefused ::
  "nat option \<Rightarrow> trieStorageManager \<Rightarrow> panic + trieStorageManager \<Rightarrow> bool" where
  "submissionRefused ch tsm r =
     (case r of
        Inl p \<Rightarrow> False
      | Inr tsm' \<Rightarrow>
          snapshotReq tsm' = snapshotReq tsm \<and> checkpointReq tsm' = checkpointReq tsm
          \<and> pruningBlockingOps tsm' = pruningBlockingOps tsm
          \<and> checkpointHashesHolder tsm' = checkpointHashesHolder tsm
          \<and> leavesChans tsm' = closeIn ch (leavesChans tsm))"

text \<open>
  A request is finished when the procedure returns with the counter one lower and the
  request's channel closed; \<open>newErrorLines\<close> counts the \<^verbatim>\<open>Error\<close> lines the procedure
  has added to the log. A walk ends cleanly with no error or with \<^verbatim>\<open>ErrContextClosing\<close>.
\<close>

definition servedCleanly :: "error option \<Rightarrow> bool" where
  "servedCleanly err = (err = None \<or> err = Some ErrContextClosing)"

definition requestFinished ::
  "snapshotsQueueEntry \<Rightarrow> trieStorageManager \<Rightarrow> panic + trieStorageManager \<Rightarrow> bool" where
  "requestFinished entry tsm r =
     (case r of
        Inl p \<Rightarrow> False
      | Inr tsm' \<Rightarrow>
          unat (pruningBlockingOps tsm') + 1 = unat (pruningBlockingOps tsm)
          \<and> leavesChans tsm' = closeIn (leavesChan entry) (leavesChans tsm))"

definition newErrorLines :: "trieStorageManager \<Rightarrow> panic + trieStorageManager \<Rightarrow> nat" where
  "newErrorLines tsm r =
     (case r of Inl p \<Rightarrow> 0 | Inr tsm' \<Rightarrow> length (errorLines tsm') - length (errorLines tsm))"

subsection \<open>The persisters at Close\<close>

text \<open>
  What a persister answers to the next \<^verbatim>\<open>Close()\<close> and the persister after it; the
  answers of the owned persisters in the order legacy, snapshots, main, checkpoints; the
  errors among a list of answers; the error \<^verbatim>\<open>Close\<close> wraps; the lines \<^verbatim>\<open>Close\<close> logs;
  and the manager after \<open>n\<close> calls of \<^verbatim>\<open>Close\<close>.
\<close>

definition closeAnswer :: "persister \<Rightarrow> error option" where
  "closeAnswer p = closeResult p (closeCalls p)"

definition closed1 :: "persister \<Rightarrow> persister" where
  "closed1 p = p\<lparr>closeCalls := Suc (closeCalls p)\<rparr>"

definition closeAnswers :: "trieStorageManager \<Rightarrow> error option list" where
  "closeAnswers tsm =
     map closeAnswer (db tsm # snapshots tsm @ [mainStorer tsm, checkpointsStorer tsm])"

definition failuresOf :: "error option list \<Rightarrow> error list" where
  "failuresOf rs = List.map_filter (\<lambda>r. r) rs"

definition lastFailure :: "error option \<Rightarrow> error option list \<Rightarrow> error option" where
  "lastFailure err rs = (if failuresOf rs = [] then err else Some (last (failuresOf rs)))"

definition closeFailed :: "error \<Rightarrow> error option" where
  "closeFailed e = Some (ErrWrapped ''trieStorageManager close failed: '' e)"

definition snapshotLine :: "logLevel \<times> string" where
  "snapshotLine = (LogError, ''trieStorageManager.Close snapshotClose'')"

definition closeLines :: "trieStorageManager \<Rightarrow> (logLevel \<times> string) list" where
  "closeLines tsm =
     replicate (length (failuresOf (map closeAnswer (snapshots tsm)))) snapshotLine
     @ (if closeAnswer (mainStorer tsm) \<noteq> None
        then [(LogError, ''trieStorageManager.Close mainStorerClose'')] else [])
     @ (if closeAnswer (checkpointsStorer tsm) \<noteq> None
        then [(LogError, ''trieStorageManager.Close checkpointsStorerClose'')] else [])"

definition closeTimes :: "nat \<Rightarrow> trieStorageManager \<Rightarrow> trieStorageManager" where
  "closeTimes n tsm = ((\<lambda>t. fst (Close t)) ^^ n) tsm"

subsection \<open>The result of discovery\<close>

text \<open>
  The three results of \<^verbatim>\<open>getSnapshotsAndSnapshotId\<close>, and the ids of the snapshots of
  the returned list, in its order.
\<close>

definition returnedList :: "environment \<Rightarrow> DBConfig \<Rightarrow> persister list" where
  "returnedList env cfg = fst (getSnapshotsAndSnapshotId env cfg)"

definition returnedId :: "environment \<Rightarrow> DBConfig \<Rightarrow> int" where
  "returnedId env cfg = fst (snd (getSnapshotsAndSnapshotId env cfg))"

definition returnedError :: "environment \<Rightarrow> DBConfig \<Rightarrow> error option" where
  "returnedError env cfg = snd (snd (getSnapshotsAndSnapshotId env cfg))"

definition discoveredIds :: "environment \<Rightarrow> DBConfig \<Rightarrow> int list" where
  "discoveredIds env cfg = orderedKeys (foundMap (fst (discoverSnapshots env cfg)))"

text \<open>
  The loop keeps the keys of the map distinct and \<^verbatim>\<open>snapshotId\<close> at the largest of 0
  and the keys.
\<close>

definition tracked :: "discovery \<Rightarrow> bool" where
  "tracked d = (distinct (map fst (foundMap d))
                \<and> nextId d = Max (insert 0 (set (map fst (foundMap d)))))"

text \<open>
  A child of the snapshot directory, taken alone: the error that stops discovery at it
  (its name does not parse, or its database does not open; a file stops nothing), and
  the entry it makes in the map (the integer its name parses to, with the database
  \<^verbatim>\<open>NewDB\<close> has opened for it; a file makes none). \<open>served\<close> are the children before
  the first that stops discovery, \<open>firstError\<close> the error of that one, and \<open>opened\<close>
  the entries of the children served, in their order.
\<close>

definition snapshotArg :: "environment \<Rightarrow> DBConfig \<Rightarrow> fileInfo \<Rightarrow> ArgDB" where
  "snapshotArg env cfg f =
     \<lparr>DBType = Type cfg, Path = Join env (FilePath cfg) (Name f),
      argBatchDelaySeconds = BatchDelaySeconds cfg, argMaxBatchSize = MaxBatchSize cfg,
      argMaxOpenFiles = MaxOpenFiles cfg\<rparr>"

definition childError :: "environment \<Rightarrow> DBConfig \<Rightarrow> fileInfo \<Rightarrow> error option" where
  "childError env cfg f =
     (if \<not> IsDir f then None
      else case Atoi (Name f) of
             Inl err \<Rightarrow> Some err
           | Inr n \<Rightarrow> (case NewDB env (snapshotArg env cfg f) of
                         Inl err \<Rightarrow> Some err
                       | Inr p \<Rightarrow> None))"

definition served :: "environment \<Rightarrow> DBConfig \<Rightarrow> fileInfo list \<Rightarrow> fileInfo list" where
  "served env cfg files = takeWhile (\<lambda>f. childError env cfg f = None) files"

definition firstError :: "environment \<Rightarrow> DBConfig \<Rightarrow> fileInfo list \<Rightarrow> error option" where
  "firstError env cfg files =
     (case dropWhile (\<lambda>f. childError env cfg f = None) files of
        [] \<Rightarrow> None
      | f # rest \<Rightarrow> childError env cfg f)"

definition childEntry :: "environment \<Rightarrow> DBConfig \<Rightarrow> fileInfo \<Rightarrow> (int \<times> persister) option" where
  "childEntry env cfg f =
     (if \<not> IsDir f then None
      else case Atoi (Name f) of
             Inl err \<Rightarrow> None
           | Inr n \<Rightarrow> (case NewDB env (snapshotArg env cfg f) of
                         Inl err \<Rightarrow> None
                       | Inr p \<Rightarrow> Some (n, p)))"

definition opened :: "environment \<Rightarrow> DBConfig \<Rightarrow> fileInfo list \<Rightarrow> (int \<times> persister) list" where
  "opened env cfg files = List.map_filter (childEntry env cfg) (served env cfg files)"

definition restoredLine :: "logLevel \<times> string" where
  "restoredLine = (LogDebug, ''restored snapshot'')"

section \<open>Example managers and directories\<close>

definition emptyPersister :: persister where
  "emptyPersister = \<lparr>getResult = (\<lambda>k. ([], None)), closeResult = (\<lambda>n. None), closeCalls = 0\<rparr>"

definition holding :: "bytes \<Rightarrow> bytes \<Rightarrow> error option \<Rightarrow> persister" where
  "holding key val err = emptyPersister\<lparr>getResult := (\<lambda>k. if k = key then (val, err) else ([], None))\<rparr>"

definition failingClose :: "error \<Rightarrow> persister" where
  "failingClose e = emptyPersister\<lparr>closeResult := (\<lambda>n. Some e)\<rparr>"

text \<open>A main storer that stores what it is given and reports no error.\<close>

definition faithfulPut :: "persister \<Rightarrow> bytes \<Rightarrow> bytes \<Rightarrow> persister \<times> error option" where
  "faithfulPut p key val = (p\<lparr>getResult := (getResult p)(key := (val, None))\<rparr>, None)"

definition emptyManager :: trieStorageManager where
  "emptyManager =
     \<lparr>mainStorer = emptyPersister, pruningBlockingOps = 0, snapshotReq = [],
      checkpointReq = [], checkpointsStorer = emptyPersister, checkpointHashesHolder = [],
      cancelled = False, closer = False, closed = False, db = emptyPersister,
      snapshots = [], snapshotId = 0, leavesChans = (\<lambda>c. ChanOpen), logged = [],
      closeOrder = []\<rparr>"

definition directory :: "string \<Rightarrow> fileInfo" where
  "directory n = \<lparr>Name = n, IsDir = True\<rparr>"

definition plainFile :: "string \<Rightarrow> fileInfo" where
  "plainFile n = \<lparr>Name = n, IsDir = False\<rparr>"

definition listing :: "fileInfo list \<Rightarrow> environment" where
  "listing files =
     \<lparr>Stat = (\<lambda>p. None), ReadDir = (\<lambda>p. Inr files), Join = (\<lambda>a b. a @ ''/'' @ b),
      NewDB = (\<lambda>arg. Inr emptyPersister)\<rparr>"

definition snapshotsCfg :: DBConfig where
  "snapshotsCfg = \<lparr>FilePath = ''snapshots'', Type = ''LvlDBSerial'', BatchDelaySeconds = 2,
                   MaxBatchSize = 100, MaxOpenFiles = 10\<rparr>"

text \<open>
  A directory whose databases can be told apart: the database opened at a path holds
  the path under the empty key.
\<close>

definition dbAt :: "string \<Rightarrow> persister" where
  "dbAt path = holding [] (map (\<lambda>c. of_nat (of_char c)) path) None"

definition located :: "fileInfo list \<Rightarrow> environment" where
  "located files = (listing files)\<lparr>NewDB := (\<lambda>arg. Inr (dbAt (Path arg)))\<rparr>"

section \<open>Theorems\<close>

subsection \<open>The lookup chain\<close>

lemma getFromSnapshots_find:
  "n \<le> length snaps \<Longrightarrow>
   getFromSnapshots snaps n key =
     (case List.find (\<lambda>v. v \<noteq> []) (map (\<lambda>p. fst (getResult p key)) (rev (take n snaps))) of
        Some v \<Rightarrow> (v, None)
      | None \<Rightarrow> ([], Some ErrKeyNotFound))"
proof (induction n)
  case 0
  then show ?case by simp
next
  case (Suc n)
  then have lt: "n < length snaps" by simp
  have "rev (take (Suc n) snaps) = snaps ! n # rev (take n snaps)"
    using lt by (simp add: take_Suc_conv_app_nth)
  with Suc show ?case by (simp add: Let_def)
qed

lemma Get_find:
  "Get tsm key =
     (case List.find (\<lambda>v. v \<noteq> []) (layerValues tsm key) of
        Some v \<Rightarrow> (v, None)
      | None \<Rightarrow> ([], Some ErrKeyNotFound))"
  by (simp add: Get_def getFromOtherStorers_def layerValues_def lookupOrder_def Let_def
      getFromSnapshots_find)

text \<open>
  C1. \<^verbatim>\<open>Get\<close> consults the main storer, the legacy storer, the checkpoints storer and
  then the snapshot databases from the newest to the oldest, and returns the first
  non-empty value with a nil error, whatever error a persister returned beside its
  value; when every storer yields an empty value it returns \<^verbatim>\<open>ErrKeyNotFound\<close>.
\<close>

theorem C1_get_lookup_order:
  "Get tsm key =
     (case List.find (\<lambda>v. v \<noteq> [])
             (map (\<lambda>p. fst (getResult p key))
                (mainStorer tsm # db tsm # checkpointsStorer tsm # rev (snapshots tsm))) of
        Some v \<Rightarrow> (v, None)
      | None \<Rightarrow> ([], Some ErrKeyNotFound))"
  using Get_find [of tsm key] by (simp add: layerValues_def lookupOrder_def)

theorem C1_get_lookup_order_witness:
  "Get (emptyManager\<lparr>checkpointsStorer := holding [1] [7] (Some (ErrOther ''io'')),
                     snapshots := [holding [1] [8] None, holding [1] [9] None]\<rparr>) [1] = ([7], None)
   \<and> Get (emptyManager\<lparr>snapshots := [holding [1] [8] None, holding [1] [9] None]\<rparr>) [1] = ([9], None)
   \<and> Get emptyManager [1] = ([], Some ErrKeyNotFound)"
  by (simp add: C1_get_lookup_order emptyManager_def holding_def emptyPersister_def)

text \<open>
  C10. \<^verbatim>\<open>Get\<close> never returns a value together with an error: its error is nil or it
  returns no value and \<^verbatim>\<open>ErrKeyNotFound\<close>. A storer that returns a non-empty value
  beside a non-nil error, the storers before it yielding empty values, is a hit:
  \<^verbatim>\<open>Get\<close> returns that value and nil.
\<close>

theorem C10_get_errors:
  "(snd (Get tsm key) = None \<or> Get tsm key = ([], Some ErrKeyNotFound))
   \<and> (\<forall>i < length (lookupOrder tsm).
         (\<forall>j < i. fst (getResult (lookupOrder tsm ! j) key) = [])
         \<and> fst (getResult (lookupOrder tsm ! i) key) \<noteq> []
         \<and> snd (getResult (lookupOrder tsm ! i) key) \<noteq> None
         \<longrightarrow> Get tsm key = (fst (getResult (lookupOrder tsm ! i) key), None))"
proof (intro conjI allI impI)
  show "snd (Get tsm key) = None \<or> Get tsm key = ([], Some ErrKeyNotFound)"
    by (simp add: Get_find split: option.split)
next
  fix i
  assume i: "i < length (lookupOrder tsm)"
    and h: "(\<forall>j < i. fst (getResult (lookupOrder tsm ! j) key) = [])
         \<and> fst (getResult (lookupOrder tsm ! i) key) \<noteq> []
         \<and> snd (getResult (lookupOrder tsm ! i) key) \<noteq> None"
  have "List.find (\<lambda>v. v \<noteq> []) (layerValues tsm key) = Some (fst (getResult (lookupOrder tsm ! i) key))"
    unfolding find_Some_iff layerValues_def using i h
    by (intro exI [of _ i]) simp
  then show "Get tsm key = (fst (getResult (lookupOrder tsm ! i) key), None)"
    by (simp add: Get_find)
qed

theorem C10_get_errors_witness:
  "Get (emptyManager\<lparr>db := holding [1] [7] (Some (ErrOther ''io''))\<rparr>) [1] = ([7], None)"
proof -
  let ?m = "emptyManager\<lparr>db := holding [1] [7] (Some (ErrOther ''io''))\<rparr>"
  have "(1::nat) < length (lookupOrder ?m)" by (simp add: lookupOrder_def)
  moreover have "(\<forall>j < (1::nat). fst (getResult (lookupOrder ?m ! j) [1]) = [])
         \<and> fst (getResult (lookupOrder ?m ! 1) [1]) \<noteq> []
         \<and> snd (getResult (lookupOrder ?m ! 1) [1]) \<noteq> None"
    by (simp add: lookupOrder_def emptyManager_def holding_def emptyPersister_def)
  ultimately have "Get ?m [1] = (fst (getResult (lookupOrder ?m ! 1) [1]), None)"
    using C10_get_errors [of ?m "[1]"] by blast
  then show ?thesis
    by (simp add: lookupOrder_def emptyManager_def holding_def emptyPersister_def)
qed

subsection \<open>Put, then Get\<close>

text \<open>
  C3, as amended. When the main storer yields \<open>val\<close> for the key after \<^verbatim>\<open>Put(key, val)\<close>
  and \<open>val\<close> is not empty, \<^verbatim>\<open>Get(key)\<close> right after the \<^verbatim>\<open>Put\<close> returns \<open>val\<close> and nil.
\<close>

theorem C3_put_then_get:
  assumes "fst (getResult (fst (storerPut (mainStorer tsm) key val)) key) = val"
      and "val \<noteq> []"
  shows "Get (fst (Put storerPut key val tsm)) key = (val, None)"
proof -
  obtain p err where sp: "storerPut (mainStorer tsm) key val = (p, err)"
    by (cases "storerPut (mainStorer tsm) key val")
  with assms show ?thesis
    by (simp add: Put_def Get_def logLine_def Let_def)
qed

theorem C3_put_then_get_witness:
  "Get (fst (Put faithfulPut [1] [5] (emptyManager\<lparr>db := holding [1] [7] None\<rparr>))) [1] = ([5], None)"
  by (rule C3_put_then_get) (simp_all add: faithfulPut_def)

text \<open>
  The claim fails for the empty value: the main storer holds it, \<^verbatim>\<open>Get\<close> takes it for
  a miss and answers from the legacy storer, or with \<^verbatim>\<open>ErrKeyNotFound\<close>.
\<close>

theorem C3_put_then_get_counterexample:
  "faithfulPut (mainStorer (emptyManager\<lparr>db := holding [1] [7] None\<rparr>)) [1] [] =
     (emptyPersister\<lparr>getResult := (getResult emptyPersister)([1] := ([], None))\<rparr>, None)
   \<and> Get (fst (Put faithfulPut [1] [] (emptyManager\<lparr>db := holding [1] [7] None\<rparr>))) [1] = ([7], None)
   \<and> Get (fst (Put faithfulPut [1] [] emptyManager)) [1] = ([], Some ErrKeyNotFound)"
  by (simp add: Put_def Get_def getFromOtherStorers_def logLine_def faithfulPut_def
      emptyManager_def holding_def emptyPersister_def)

subsection \<open>The pruning-block counter\<close>

text \<open>
  C6, as amended. \<^verbatim>\<open>EnterPruningBufferingMode\<close> adds one to the counter, from
  \<open>2\<^sup>3\<^sup>2 - 1\<close> wrapping to 0. \<^verbatim>\<open>ExitPruningBufferingMode\<close> takes one off a positive
  counter and leaves a counter of 0 at 0, logging an error only then. From every
  counter but \<open>2\<^sup>3\<^sup>2 - 1\<close>, Enter and then Exit give the counter back.
  \<^verbatim>\<open>IsPruningBlocked\<close> is true exactly when the counter is not 0.
\<close>

theorem C6_pruning_counter:
  "unat (pruningBlockingOps (EnterPruningBufferingMode tsm)) =
     (if unat (pruningBlockingOps tsm) = 4294967295 then 0 else unat (pruningBlockingOps tsm) + 1)
   \<and> unat (pruningBlockingOps (ExitPruningBufferingMode tsm)) = unat (pruningBlockingOps tsm) - 1
   \<and> (pruningBlockingOps tsm = 0 \<longrightarrow>
        pruningBlockingOps (ExitPruningBufferingMode tsm) = 0
        \<and> errorLines (ExitPruningBufferingMode tsm) =
            errorLines tsm @ [(LogError, ''ExitPruningBufferingMode called too many times'')])
   \<and> (pruningBlockingOps tsm \<noteq> 0 \<longrightarrow>
        errorLines (ExitPruningBufferingMode tsm) = errorLines tsm)
   \<and> (unat (pruningBlockingOps tsm) \<noteq> 4294967295 \<longrightarrow>
        pruningBlockingOps (ExitPruningBufferingMode (EnterPruningBufferingMode tsm)) =
          pruningBlockingOps tsm)
   \<and> IsPruningBlocked tsm = (pruningBlockingOps tsm \<noteq> 0)"
proof -
  let ?c = "pruningBlockingOps tsm"
  have lt1: "(?c < 1) = (?c = 0)" by (simp add: word_less_1)
  have bound: "unat ?c < 4294967296"
    using unsigned_less [of ?c, where ?'a = nat] by simp
  have enter: "unat (?c + 1) = (if unat ?c = 4294967295 then 0 else unat ?c + 1)"
    using bound by (simp add: unat_word_ariths)
  have exit: "unat (?c - 1) = unat ?c - 1" if "?c \<noteq> 0"
    using that by (simp add: unat_minus_one)
  have rt: "?c + 1 \<noteq> 0" if "unat ?c \<noteq> 4294967295"
  proof
    assume "?c + 1 = 0"
    then have "unat (?c + 1) = 0" by simp
    with enter that show False by simp
  qed
  show ?thesis
    using enter exit rt
    by (auto simp add: EnterPruningBufferingMode_def ExitPruningBufferingMode_def
        IsPruningBlocked_def logLine_def errorLines_def lt1)
qed

theorem C6_pruning_counter_witness:
  "pruningBlockingOps (ExitPruningBufferingMode (EnterPruningBufferingMode emptyManager)) =
     pruningBlockingOps emptyManager
   \<and> pruningBlockingOps (ExitPruningBufferingMode emptyManager) = 0
   \<and> errorLines (ExitPruningBufferingMode emptyManager) =
       [(LogError, ''ExitPruningBufferingMode called too many times'')]"
  using C6_pruning_counter [of emptyManager]
  by (simp add: emptyManager_def errorLines_def)

text \<open>At the largest counter Enter wraps to 0, where Exit stays.\<close>

theorem C6_pruning_counter_counterexample:
  "pruningBlockingOps (EnterPruningBufferingMode (emptyManager\<lparr>pruningBlockingOps := 4294967295\<rparr>)) = 0
   \<and> pruningBlockingOps (ExitPruningBufferingMode (EnterPruningBufferingMode
         (emptyManager\<lparr>pruningBlockingOps := 4294967295\<rparr>))) = 0
   \<and> pruningBlockingOps (emptyManager\<lparr>pruningBlockingOps := 4294967295\<rparr>) \<noteq> 0"
  by (simp add: EnterPruningBufferingMode_def ExitPruningBufferingMode_def logLine_def)

subsection \<open>Refused submissions\<close>

lemma safelyCloseChan_open:
  "stillOpen ch tsm \<Longrightarrow>
   safelyCloseChan ch tsm = Inr (tsm\<lparr>leavesChans := closeIn ch (leavesChans tsm)\<rparr>)"
  by (cases ch) (simp_all add: safelyCloseChan_def stillOpen_def closeIn_def)

text \<open>
  C5. A call of \<^verbatim>\<open>TakeSnapshot\<close> or \<^verbatim>\<open>SetCheckpoint\<close> on a closed manager, or with the
  root hash of the empty trie, returns having put nothing on either queue, with the
  counter and the holder as they were, and with the leaves channel closed when one was
  given. The channel given has not been closed before: Go panics on a second
  \<^verbatim>\<open>close\<close>.
\<close>

theorem C5_refused_submission:
  assumes "isClosed tsm \<or> root = EmptyTrieHash"
      and "stillOpen ch tsm"
  shows "submissionRefused ch tsm (TakeSnapshot EmptyTrieHash branch root isNewDb ch tsm)
         \<and> submissionRefused ch tsm (SetCheckpoint EmptyTrieHash branch root ch tsm)"
proof -
  have "stillOpen ch (logLine lvl msg tsm)" for lvl msg
    using assms(2) by (simp add: stillOpen_def logLine_def split: option.splits)
  then show ?thesis
    using assms
    by (auto simp add: TakeSnapshot_def SetCheckpoint_def submissionRefused_def
        safelyCloseChan_open logLine_def)
qed

theorem C5_refused_submission_witness:
  "submissionRefused (Some 3) (emptyManager\<lparr>closed := True\<rparr>)
     (TakeSnapshot [0] RequestSent [1] True (Some 3) (emptyManager\<lparr>closed := True\<rparr>))
   \<and> submissionRefused (Some 3) emptyManager
       (SetCheckpoint [0] RequestSent [0] (Some 3) emptyManager)"
proof -
  have a: "stillOpen (Some 3) (emptyManager\<lparr>closed := True\<rparr>)"
    and b: "stillOpen (Some 3) emptyManager"
    by (simp_all add: stillOpen_def emptyManager_def)
  have c: "isClosed (emptyManager\<lparr>closed := True\<rparr>) \<or> [1] = ([0] :: bytes)"
    by (simp add: isClosed_def)
  have d: "isClosed emptyManager \<or> [0] = ([0] :: bytes)" by simp
  show ?thesis
    using C5_refused_submission [OF c a, of RequestSent True]
      C5_refused_submission [OF d b, of RequestSent True]
    by simp
qed

subsection \<open>Requests served by the worker\<close>

lemma finishOperation_positive:
  assumes "pruningBlockingOps tsm \<noteq> 0" and "stillOpen (leavesChan entry) tsm"
      and "pruningBlockingOps tsm1 = pruningBlockingOps tsm"
      and "leavesChans tsm1 = leavesChans tsm"
  shows "finishOperation entry msg tsm1 =
     Inr (tsm1\<lparr>pruningBlockingOps := pruningBlockingOps tsm - 1,
              logged := logged tsm1 @ [(LogTrace, ''exit pruning buffering state''), (LogTrace, msg)],
              leavesChans := closeIn (leavesChan entry) (leavesChans tsm)\<rparr>)"
proof -
  let ?t = "logLine LogTrace msg (ExitPruningBufferingMode tsm1)"
  have "stillOpen (leavesChan entry) ?t"
    using assms by (simp add: stillOpen_def logLine_def ExitPruningBufferingMode_def split: option.splits)
  then show ?thesis
    using assms
    by (simp add: finishOperation_def safelyCloseChan_open)
      (simp add: logLine_def ExitPruningBufferingMode_def)
qed

lemma finished_after_body:
  assumes "pruningBlockingOps tsm \<noteq> 0" and "stillOpen (leavesChan entry) tsm"
      and "pruningBlockingOps tsm1 = pruningBlockingOps tsm"
      and "leavesChans tsm1 = leavesChans tsm"
  shows "requestFinished entry tsm (finishOperation entry msg tsm1)
       \<and> newErrorLines tsm (finishOperation entry msg tsm1) =
           length (errorLines tsm1) - length (errorLines tsm)"
proof -
  have dec: "unat (pruningBlockingOps tsm - 1) + 1 = unat (pruningBlockingOps tsm)"
  proof -
    have "unat (pruningBlockingOps tsm) \<noteq> 0"
      using assms(1) by (simp add: unat_eq_zero)
    then show ?thesis
      using assms(1) by (simp add: unat_minus_one)
  qed
  have fin: "finishOperation entry msg tsm1 =
     Inr (tsm1\<lparr>pruningBlockingOps := pruningBlockingOps tsm - 1,
              logged := logged tsm1 @ [(LogTrace, ''exit pruning buffering state''), (LogTrace, msg)],
              leavesChans := closeIn (leavesChan entry) (leavesChans tsm)\<rparr>)"
    using assms by (rule finishOperation_positive)
  show ?thesis
    unfolding fin using dec
    by (simp add: requestFinished_def newErrorLines_def errorLines_def)
qed

text \<open>
  C8. Whatever the outcome of \<^verbatim>\<open>takeSnapshot\<close> or \<^verbatim>\<open>takeCheckpoint\<close> (the root node
  does not decode, the snapshot view is refused, the walk succeeds, ends with
  \<^verbatim>\<open>ErrContextClosing\<close> or with another error), the procedure returns with the counter
  one lower and the leaves channel of the request closed. It logs one \<^verbatim>\<open>Error\<close> line
  when the node does not decode, the view is refused or the walk ends with an error
  other than \<^verbatim>\<open>ErrContextClosing\<close>, and none otherwise. The counter is positive, as it
  is after the submission that queued the request, and the channel has not been closed
  before.
\<close>

theorem C8_worker_completes_request:
  assumes "pruningBlockingOps tsm \<noteq> 0" and "stillOpen (leavesChan entry) tsm"
  shows "requestFinished entry tsm (takeSnapshot decode stsmErr entry tsm)
       \<and> requestFinished entry tsm (takeCheckpoint decode entry tsm)
       \<and> newErrorLines tsm (takeSnapshot decode stsmErr entry tsm) =
           (case decode (rootHash entry) tsm of
              Inl err \<Rightarrow> 1
            | Inr newRoot \<Rightarrow>
                if stsmErr \<noteq> None then 1
                else if servedCleanly (commitSnapshot newRoot) then 0 else 1)
       \<and> newErrorLines tsm (takeCheckpoint decode entry tsm) =
           (case decode (rootHash entry) tsm of
              Inl err \<Rightarrow> 1
            | Inr newRoot \<Rightarrow> if servedCleanly (commitCheckpoint newRoot) then 0 else 1)"
proof -
  note fb = finished_after_body [OF assms]
  show ?thesis
    unfolding takeSnapshot_def takeCheckpoint_def
    by (auto simp add: fb Let_def newSnapshotNode_def servedCleanly_def logLine_def
        errorLines_def split: sum.splits)
qed

theorem C8_worker_completes_request_witness:
  "requestFinished \<lparr>rootHash = [1], newDb = True, leavesChan = Some 2\<rparr>
     (emptyManager\<lparr>pruningBlockingOps := 1\<rparr>)
     (takeSnapshot (\<lambda>h t. Inr \<lparr>commitSnapshot = Some ErrContextClosing, commitCheckpoint = None\<rparr>)
        None \<lparr>rootHash = [1], newDb = True, leavesChan = Some 2\<rparr>
        (emptyManager\<lparr>pruningBlockingOps := 1\<rparr>))
   \<and> newErrorLines (emptyManager\<lparr>pruningBlockingOps := 1\<rparr>)
     (takeSnapshot (\<lambda>h t. Inr \<lparr>commitSnapshot = Some ErrContextClosing, commitCheckpoint = None\<rparr>)
        None \<lparr>rootHash = [1], newDb = True, leavesChan = Some 2\<rparr>
        (emptyManager\<lparr>pruningBlockingOps := 1\<rparr>)) = 0"
proof -
  let ?t = "emptyManager\<lparr>pruningBlockingOps := 1\<rparr>"
  let ?e = "\<lparr>rootHash = [1], newDb = True, leavesChan = Some 2\<rparr>"
  have a: "pruningBlockingOps ?t \<noteq> 0" by simp
  have b: "stillOpen (leavesChan ?e) ?t" by (simp add: stillOpen_def emptyManager_def)
  show ?thesis
    using C8_worker_completes_request [OF a b,
        of "\<lambda>h t. Inr \<lparr>commitSnapshot = Some ErrContextClosing, commitCheckpoint = None\<rparr>" None]
    by (simp add: servedCleanly_def)
qed

subsection \<open>Close\<close>

lemma failuresOf_simps [simp]:
  "failuresOf [] = []"
  "failuresOf (None # rs) = failuresOf rs"
  "failuresOf (Some e # rs) = e # failuresOf rs"
  by (simp_all add: failuresOf_def List.map_filter_simps)

lemma failuresOf_append [simp]: "failuresOf (xs @ ys) = failuresOf xs @ failuresOf ys"
  by (induction xs) (auto simp add: failuresOf_def List.map_filter_simps split: option.split)

lemma lastFailure_snoc:
  "lastFailure err (rs @ [r]) = (if r \<noteq> None then r else lastFailure err rs)"
  by (cases r) (simp_all add: lastFailure_def)

lemma closeSnapshot_step:
  assumes "n < length snaps" and "snapshots tsm = map closed1 (take n snaps) @ drop n snaps"
  shows "closeSnapshot n (tsm, err) =
     (tsm\<lparr>snapshots := map closed1 (take (Suc n) snaps) @ drop (Suc n) snaps,
          closeOrder := closeOrder tsm @ [SnapshotDb n],
          logged := logged tsm @ (if closeAnswer (snaps ! n) \<noteq> None then [snapshotLine] else [])\<rparr>,
      if closeAnswer (snaps ! n) \<noteq> None then closeAnswer (snaps ! n) else err)"
proof -
  have nth: "snapshots tsm ! n = snaps ! n"
    using assms by (simp add: nth_append)
  have upd: "(snapshots tsm)[n := closed1 (snaps ! n)] =
      map closed1 (take (Suc n) snaps) @ drop (Suc n) snaps"
    using assms by (simp add: take_Suc_conv_app_nth list_update_append Cons_nth_drop_Suc [symmetric])
  show ?thesis
    using upd
    by (simp add: closeSnapshot_def persisterClose_def nth Let_def closed1_def [symmetric]
        closeAnswer_def [symmetric] logLine_def snapshotLine_def)
qed

lemma fold_closeSnapshot:
  "n \<le> length (snapshots tsm) \<Longrightarrow>
   fold closeSnapshot [0..<n] (tsm, err) =
     (tsm\<lparr>snapshots := map closed1 (take n (snapshots tsm)) @ drop n (snapshots tsm),
          closeOrder := closeOrder tsm @ map SnapshotDb [0..<n],
          logged := logged tsm @
            replicate (length (failuresOf (map closeAnswer (take n (snapshots tsm))))) snapshotLine\<rparr>,
      lastFailure err (map closeAnswer (take n (snapshots tsm))))"
proof (induction n)
  case 0
  then show ?case by (simp add: lastFailure_def)
next
  case (Suc n)
  let ?snaps = "snapshots tsm"
  let ?mid = "tsm\<lparr>snapshots := map closed1 (take n ?snaps) @ drop n ?snaps,
          closeOrder := closeOrder tsm @ map SnapshotDb [0..<n],
          logged := logged tsm @
            replicate (length (failuresOf (map closeAnswer (take n ?snaps)))) snapshotLine\<rparr>"
  from Suc have lt: "n < length ?snaps" by simp
  have mid: "snapshots ?mid = map closed1 (take n ?snaps) @ drop n ?snaps" by simp
  have "fold closeSnapshot [0..<Suc n] (tsm, err) =
      closeSnapshot n (?mid, lastFailure err (map closeAnswer (take n ?snaps)))"
    using Suc by simp
  also have "\<dots> =
     (?mid\<lparr>snapshots := map closed1 (take (Suc n) ?snaps) @ drop (Suc n) ?snaps,
          closeOrder := closeOrder ?mid @ [SnapshotDb n],
          logged := logged ?mid @ (if closeAnswer (?snaps ! n) \<noteq> None then [snapshotLine] else [])\<rparr>,
      if closeAnswer (?snaps ! n) \<noteq> None then closeAnswer (?snaps ! n)
      else lastFailure err (map closeAnswer (take n ?snaps)))"
    by (rule closeSnapshot_step [OF lt mid])
  also have "\<dots> =
     (tsm\<lparr>snapshots := map closed1 (take (Suc n) ?snaps) @ drop (Suc n) ?snaps,
          closeOrder := closeOrder tsm @ map SnapshotDb [0..<Suc n],
          logged := logged tsm @
            replicate (length (failuresOf (map closeAnswer (take (Suc n) ?snaps)))) snapshotLine\<rparr>,
      lastFailure err (map closeAnswer (take (Suc n) ?snaps)))"
    using lt
    by (cases "closeAnswer (?snaps ! n)")
      (simp_all add: take_Suc_conv_app_nth lastFailure_snoc replicate_append_same)
  finally show ?case .
qed

lemma Close_eq:
  "Close tsm =
     (tsm\<lparr>cancelled := True, closed := True, closer := True,
          db := closed1 (db tsm),
          snapshots := map closed1 (snapshots tsm),
          mainStorer := closed1 (mainStorer tsm),
          checkpointsStorer := closed1 (checkpointsStorer tsm),
          closeOrder := closeOrder tsm @ LegacyStorer #
             map SnapshotDb [0..<length (snapshots tsm)] @ [MainStorer, CheckpointsStorer],
          logged := logged tsm @ closeLines tsm\<rparr>,
      map_option (ErrWrapped ''trieStorageManager close failed: '')
        (lastFailure None (closeAnswers tsm)))"
proof -
  let ?t2 = "tsm\<lparr>cancelled := True, closed := True, db := closed1 (db tsm),
                 closeOrder := closeOrder tsm @ [LegacyStorer]\<rparr>"
  have f: "fold closeSnapshot [0..<length (snapshots ?t2)] (?t2, closeAnswer (db tsm)) =
     (?t2\<lparr>snapshots := map closed1 (snapshots tsm),
          closeOrder := closeOrder ?t2 @ map SnapshotDb [0..<length (snapshots tsm)],
          logged := logged tsm @
            replicate (length (failuresOf (map closeAnswer (snapshots tsm)))) snapshotLine\<rparr>,
      lastFailure (closeAnswer (db tsm)) (map closeAnswer (snapshots tsm)))"
    using fold_closeSnapshot [of "length (snapshots ?t2)" ?t2 "closeAnswer (db tsm)"] by simp
  have l0: "lastFailure (closeAnswer (db tsm)) rs = lastFailure None (closeAnswer (db tsm) # rs)" for rs
    by (cases "closeAnswer (db tsm)") (simp_all add: lastFailure_def)
  have l2: "lastFailure None (x # rs @ [a, b]) =
      (if b \<noteq> None then b else if a \<noteq> None then a else lastFailure None (x # rs))" for x rs a b
    using lastFailure_snoc [of None "x # rs @ [a]" b] lastFailure_snoc [of None "x # rs" a]
    by simp
  show ?thesis
    unfolding Close_def
    by (simp add: persisterClose_def closed1_def [symmetric] closeAnswer_def [symmetric]
        Let_def f [simplified] closeAnswers_def closeLines_def l0 l2 logLine_def
        safeCloserClose_def split: option.split)
qed

lemma closeTimes_Suc: "closeTimes (Suc n) tsm = fst (Close (closeTimes n tsm))"
  by (simp add: closeTimes_def)

text \<open>
  C7, as amended. \<^verbatim>\<open>Close\<close> calls \<^verbatim>\<open>Close()\<close> on the legacy storer, on every snapshot
  database in the order of the list, on the main storer and on the checkpoints storer,
  whatever any of them answers. It returns nil when none fails, and otherwise the error
  of the last persister that failed, in that order, wrapped once. The log gets one
  \<^verbatim>\<open>Error\<close> line for each snapshot database, and for the main and the checkpoints
  storer, that failed.
\<close>

theorem C7_close_order_and_error:
  "closeOrder (fst (Close tsm)) =
     closeOrder tsm @ LegacyStorer # map SnapshotDb [0..<length (snapshots tsm)]
       @ [MainStorer, CheckpointsStorer]
   \<and> snd (Close tsm) =
       (if failuresOf (closeAnswers tsm) = [] then None
        else closeFailed (last (failuresOf (closeAnswers tsm))))
   \<and> logged (fst (Close tsm)) = logged tsm @ closeLines tsm"
  by (simp add: Close_eq lastFailure_def closeFailed_def)

theorem C7_close_order_and_error_witness:
  "closeOrder (fst (Close (emptyManager\<lparr>snapshots := [failingClose (ErrOther ''s0''), emptyPersister]\<rparr>))) =
     [LegacyStorer, SnapshotDb 0, SnapshotDb 1, MainStorer, CheckpointsStorer]
   \<and> snd (Close (emptyManager\<lparr>snapshots := [failingClose (ErrOther ''s0''), emptyPersister]\<rparr>)) =
       closeFailed (ErrOther ''s0'')
   \<and> snd (Close emptyManager) = None"
  using C7_close_order_and_error [of "emptyManager\<lparr>snapshots := [failingClose (ErrOther ''s0''), emptyPersister]\<rparr>"]
    C7_close_order_and_error [of emptyManager]
  by (simp add: closeAnswers_def closeAnswer_def emptyManager_def emptyPersister_def
      failingClose_def upt_rec)

text \<open>
  The returned error does not collect the failures: when the legacy storer and the main
  storer both fail, the error of the legacy storer is not among the errors returned.
\<close>

theorem C7_close_order_and_error_counterexample:
  "failuresOf (closeAnswers (emptyManager\<lparr>db := failingClose (ErrOther ''legacy''),
        mainStorer := failingClose (ErrOther ''main'')\<rparr>)) = [ErrOther ''legacy'', ErrOther ''main'']
   \<and> snd (Close (emptyManager\<lparr>db := failingClose (ErrOther ''legacy''),
        mainStorer := failingClose (ErrOther ''main'')\<rparr>)) =
       Some (ErrWrapped ''trieStorageManager close failed: '' (ErrOther ''main''))
   \<and> ErrOther ''legacy'' \<notin>
       set (errorChain (ErrWrapped ''trieStorageManager close failed: '' (ErrOther ''main'')))"
  by (simp add: Close_eq lastFailure_def closeAnswers_def closeAnswer_def emptyManager_def
      emptyPersister_def failingClose_def)

text \<open>
  C2, as amended. Every call of \<^verbatim>\<open>Close\<close> on the manager calls \<^verbatim>\<open>Close()\<close> once on the
  legacy storer, on each snapshot database, on the main storer and on the checkpoints
  storer: after \<open>n\<close> calls each of them has been closed \<open>n\<close> times more. Only the
  flags are idempotent: after one call or more the manager is closed, the context
  cancelled and the closer fired, and no call panics.
\<close>

theorem C2_every_close_closes_again:
  "closeCalls (db (closeTimes n tsm)) = closeCalls (db tsm) + n
   \<and> map closeCalls (snapshots (closeTimes n tsm)) = map (\<lambda>p. closeCalls p + n) (snapshots tsm)
   \<and> closeCalls (mainStorer (closeTimes n tsm)) = closeCalls (mainStorer tsm) + n
   \<and> closeCalls (checkpointsStorer (closeTimes n tsm)) = closeCalls (checkpointsStorer tsm) + n
   \<and> (0 < n \<longrightarrow> closed (closeTimes n tsm) \<and> cancelled (closeTimes n tsm)
                \<and> closer (closeTimes n tsm))"
proof (induction n)
  case 0
  then show ?case by (simp add: closeTimes_def)
next
  case (Suc n)
  have step: "map closeCalls (snapshots (fst (Close t))) = map Suc (map closeCalls (snapshots t))"
    for t by (simp add: Close_eq closed1_def comp_def)
  have "map closeCalls (snapshots (closeTimes (Suc n) tsm)) =
      map Suc (map (\<lambda>p. closeCalls p + n) (snapshots tsm))"
    using Suc by (simp only: closeTimes_Suc step)
  then have "map closeCalls (snapshots (closeTimes (Suc n) tsm)) =
      map (\<lambda>p. closeCalls p + Suc n) (snapshots tsm)"
    by (simp add: comp_def)
  moreover have "closeCalls (db (closeTimes (Suc n) tsm)) = closeCalls (db tsm) + Suc n"
    "closeCalls (mainStorer (closeTimes (Suc n) tsm)) = closeCalls (mainStorer tsm) + Suc n"
    "closeCalls (checkpointsStorer (closeTimes (Suc n) tsm)) =
       closeCalls (checkpointsStorer tsm) + Suc n"
    "closed (closeTimes (Suc n) tsm)" "cancelled (closeTimes (Suc n) tsm)"
    "closer (closeTimes (Suc n) tsm)"
    using Suc by (simp_all add: closeTimes_Suc Close_eq closed1_def)
  ultimately show ?case by simp
qed

theorem C2_every_close_closes_again_witness:
  "closeCalls (mainStorer (closeTimes 2 emptyManager)) = 2
   \<and> closed (closeTimes 2 emptyManager) \<and> closer (closeTimes 2 emptyManager)"
  using C2_every_close_closes_again [of 2 emptyManager]
  by (simp add: emptyManager_def emptyPersister_def)

text \<open>The second call of \<^verbatim>\<open>Close\<close> closes every persister a second time.\<close>

theorem C2_close_twice_counterexample:
  "closeCalls (mainStorer (fst (Close emptyManager))) = 1
   \<and> closeCalls (mainStorer (fst (Close (fst (Close emptyManager))))) = 2
   \<and> closeOrder (fst (Close (fst (Close (emptyManager\<lparr>snapshots := [emptyPersister]\<rparr>))))) =
       [LegacyStorer, SnapshotDb 0, MainStorer, CheckpointsStorer,
        LegacyStorer, SnapshotDb 0, MainStorer, CheckpointsStorer]"
  by (simp add: Close_eq closed1_def emptyManager_def emptyPersister_def)

subsection \<open>Snapshot discovery\<close>

lemma keys_mapStore:
  "map fst (mapStore k v m) = (if k \<in> set (map fst m) then map fst m else map fst m @ [k])"
proof -
  have "map fst (map (\<lambda>(k', w). if k' = k then (k', v) else (k', w)) m) = map fst m"
    by (induction m) auto
  then show ?thesis by (simp add: mapStore_def)
qed

lemma tracked_step:
  assumes "tracked d"
  shows "tracked (d\<lparr>nextId := (if n > nextId d then n else nextId d),
                   lines := ls,
                   foundMap := mapStore n p (foundMap d)\<rparr>)"
proof -
  let ?K = "set (map fst (foundMap d))"
  let ?m = "mapStore n p (foundMap d)"
  have keys: "set (map fst ?m) = insert n ?K"
    by (auto simp add: keys_mapStore)
  have dist: "distinct (map fst ?m)"
    using assms by (simp add: keys_mapStore tracked_def)
  have "Max (insert n (insert 0 ?K)) = max n (Max (insert 0 ?K))"
    by (rule Max_insert) simp_all
  moreover have "insert 0 (insert n ?K) = insert n (insert 0 ?K)" by auto
  ultimately have "Max (insert 0 (set (map fst ?m))) = max n (Max (insert 0 ?K))"
    by (simp only: keys)
  moreover define t where "t = Max (insert 0 ?K)"
  moreover define t' where "t' = Max (insert 0 (set (map fst ?m)))"
  moreover have "nextId d = Max (insert 0 ?K)"
    using assms by (simp add: tracked_def)
  ultimately have "t' = max n t" and "nextId d = t"
    by simp_all
  then have "(if n > nextId d then n else nextId d) = t'"
    by (simp add: max_def)
  then have "(if n > nextId d then n else nextId d) = Max (insert 0 (set (map fst ?m)))"
    by (simp only: t'_def)
  with dist show ?thesis
    by (simp add: tracked_def)
qed

lemma scanFiles_tracked:
  "scanFiles env cfg files d = (d', err) \<Longrightarrow> tracked d \<Longrightarrow> tracked d'"
proof (induction env cfg files d rule: scanFiles.induct)
  case (1 env cfg d)
  then show ?case by simp
next
  case (2 env cfg f files d)
  then show ?case
    by (auto split: if_splits sum.splits simp add: tracked_step)
qed

lemma tracked_start: "tracked \<lparr>foundMap = [], nextId = 0, lines = []\<rparr>"
  by (simp add: tracked_def)

lemma scan_start_distinct:
  "scanFiles env cfg files \<lparr>foundMap = [], nextId = 0, lines = []\<rparr> = (d, err) \<Longrightarrow>
   distinct (map fst (foundMap d))"
  using scanFiles_tracked [OF _ tracked_start, of env cfg files d err]
  by (simp add: tracked_def)

lemma discover_distinct:
  "distinct (map fst (foundMap (fst (discoverSnapshots env cfg))))"
  by (auto simp add: discoverSnapshots_def Let_def dest: scan_start_distinct
      split: sum.split prod.split option.split)

lemma discover_normal_id:
  assumes "snd (discoverSnapshots env cfg) = None"
  shows "nextId (fst (discoverSnapshots env cfg)) =
     (if foundMap (fst (discoverSnapshots env cfg)) = [] then 0
      else intInc (Max (insert 0 (set (map fst (foundMap (fst (discoverSnapshots env cfg))))))))"
proof (cases "directoryExists env (FilePath cfg)")
  case False
  then show ?thesis by (simp add: discoverSnapshots_def)
next
  case True
  show ?thesis
  proof (cases "ReadDir env (FilePath cfg)")
    case (Inl e)
    with True assms show ?thesis by (simp add: discoverSnapshots_def)
  next
    case (Inr files)
    obtain d err where sc: "scanFiles env cfg files \<lparr>foundMap = [], nextId = 0, lines = []\<rparr> = (d, err)"
      by (cases "scanFiles env cfg files \<lparr>foundMap = [], nextId = 0, lines = []\<rparr>")
    have tr: "tracked d"
      using scanFiles_tracked [OF sc tracked_start] .
    from True Inr sc assms have "err = None"
      by (cases err) (simp_all add: discoverSnapshots_def)
    with True Inr sc tr show ?thesis
      by (simp add: discoverSnapshots_def tracked_def)
  qed
qed

lemma returned_simps:
  "returnedList env cfg = getOrderedSnapshots (foundMap (fst (discoverSnapshots env cfg)))"
  "returnedId env cfg = nextId (fst (discoverSnapshots env cfg))"
  "returnedError env cfg = snd (discoverSnapshots env cfg)"
  by (simp_all add: returnedList_def returnedId_def returnedError_def
      getSnapshotsAndSnapshotId_def split: prod.split)

lemmas discovery_eval =
  getSnapshotsAndSnapshotId_def discoverSnapshots_def directoryExists_def IsNotExist_def
  listing_def directory_def plainFile_def Atoi_def isDigit_def decimal_def minInt_def maxInt_def
  intInc_def mapStore_def getOrderedSnapshots_def orderedKeys_def discoveredIds_def
  returnedList_def returnedId_def returnedError_def Let_def

text \<open>
  C4, as amended. The ids of the returned list are strictly increasing, and the list
  holds, in that order, the snapshot the map has for each. When discovery returns no
  error, the next id is 0 if no snapshot was found and otherwise one more than the
  largest of 0 and the ids (wrapping at the largest \<^verbatim>\<open>int\<close>); so, when the ids are not
  negative and below the largest \<^verbatim>\<open>int\<close>, it is the largest id plus one and greater
  than every id.
\<close>

theorem C4_discovered_ids:
  "sorted_wrt (<) (discoveredIds env cfg)
   \<and> map Some (returnedList env cfg) =
       map (map_of (foundMap (fst (discoverSnapshots env cfg)))) (discoveredIds env cfg)
   \<and> (returnedError env cfg = None \<longrightarrow>
        returnedId env cfg =
          (if discoveredIds env cfg = [] then 0
           else intInc (max 0 (Max (set (discoveredIds env cfg))))))
   \<and> (returnedError env cfg = None \<and> (\<forall>k \<in> set (discoveredIds env cfg). 0 \<le> k \<and> k < maxInt) \<longrightarrow>
        (discoveredIds env cfg \<noteq> [] \<longrightarrow>
           returnedId env cfg = Max (set (discoveredIds env cfg)) + 1)
        \<and> (\<forall>k \<in> set (discoveredIds env cfg). k < returnedId env cfg))"
proof -
  let ?m = "foundMap (fst (discoverSnapshots env cfg))"
  let ?ids = "discoveredIds env cfg"
  have set_ids: "set ?ids = set (map fst ?m)"
    by (simp add: discoveredIds_def orderedKeys_def)
  have empty_iff: "(?ids = []) = (?m = [])"
    by (simp add: discoveredIds_def orderedKeys_def flip: length_0_conv)
  have s: "sorted_wrt (<) ?ids"
    using discover_distinct [of env cfg]
    by (simp add: discoveredIds_def orderedKeys_def strict_sorted_iff)
  have "map_of ?m key = Some (the (map_of ?m key))" if "key \<in> set ?ids" for key
  proof -
    from that have "key \<in> fst ` set ?m" by (simp add: set_ids)
    then have "map_of ?m key \<noteq> None" by (simp add: map_of_eq_None_iff)
    then show ?thesis by simp
  qed
  then have l: "map Some (returnedList env cfg) = map (map_of ?m) ?ids"
    by (simp add: returned_simps getOrderedSnapshots_def discoveredIds_def [symmetric])
  have mx: "Max (insert 0 (set ?ids)) = max 0 (Max (set ?ids))" if "?ids \<noteq> []"
    using that by (simp del: set_map)
  have n: "returnedId env cfg = (if ?ids = [] then 0 else intInc (max 0 (Max (set ?ids))))"
    if "returnedError env cfg = None"
  proof -
    from that have "snd (discoverSnapshots env cfg) = None"
      by (simp add: returned_simps)
    from discover_normal_id [OF this]
    have "returnedId env cfg =
        (if ?ids = [] then 0 else intInc (Max (insert 0 (set ?ids))))"
      by (simp only: returned_simps set_ids [symmetric] empty_iff [symmetric])
    then show ?thesis
    proof (cases "?ids = []")
      case True
      then show ?thesis
        using \<open>returnedId env cfg = (if ?ids = [] then 0 else intInc (Max (insert 0 (set ?ids))))\<close>
        by simp
    next
      case False
      with mx have "Max (insert 0 (set ?ids)) = max 0 (Max (set ?ids))" by blast
      with False show ?thesis
        using \<open>returnedId env cfg = (if ?ids = [] then 0 else intInc (Max (insert 0 (set ?ids))))\<close>
        by (simp only: if_False)
    qed
  qed
  have b: "(?ids \<noteq> [] \<longrightarrow> returnedId env cfg = Max (set ?ids) + 1)
        \<and> (\<forall>k \<in> set ?ids. k < returnedId env cfg)"
    if e: "returnedError env cfg = None" and r: "\<forall>k \<in> set ?ids. 0 \<le> k \<and> k < maxInt"
  proof (cases "?ids = []")
    case True
    then show ?thesis by simp
  next
    case False
    then have mem: "Max (set ?ids) \<in> set ?ids" by (intro Max_in) simp_all
    with r have "0 \<le> Max (set ?ids)" "Max (set ?ids) < maxInt" by blast+
    with n [OF e] False have id: "returnedId env cfg = Max (set ?ids) + 1"
      by (simp add: intInc_def max_def)
    have "k < returnedId env cfg" if "k \<in> set ?ids" for k
    proof -
      from that have "k \<le> Max (set ?ids)" by (intro Max_ge) simp_all
      with id show ?thesis by simp
    qed
    with id show ?thesis by blast
  qed
  from s l n b show ?thesis by blast
qed

theorem C4_discovered_ids_witness:
  "discoveredIds (listing [directory ''0'', directory ''2'', plainFile ''LOCK'']) snapshotsCfg = [0, 2]
   \<and> returnedId (listing [directory ''0'', directory ''2'', plainFile ''LOCK'']) snapshotsCfg = 3"
proof -
  let ?env = "listing [directory ''0'', directory ''2'', plainFile ''LOCK'']"
  have ids: "discoveredIds ?env snapshotsCfg = [0, 2]"
    by (simp add: discovery_eval)
  have err: "returnedError ?env snapshotsCfg = None"
    by (simp add: discovery_eval)
  have rng: "\<forall>k \<in> set (discoveredIds ?env snapshotsCfg). 0 \<le> k \<and> k < maxInt"
    by (simp add: ids maxInt_def)
  from C4_discovered_ids [of ?env snapshotsCfg] err rng
  have "discoveredIds ?env snapshotsCfg \<noteq> [] \<longrightarrow>
      returnedId ?env snapshotsCfg = Max (set (discoveredIds ?env snapshotsCfg)) + 1"
    by blast
  with ids show ?thesis by simp
qed

text \<open>
  Where discovery stops with an error, the id returned is the largest found so far,
  not one more: with the directories \<^verbatim>\<open>0\<close> and \<^verbatim>\<open>x\<close> it is 0, the id of a snapshot of
  the list. A directory \<^verbatim>\<open>-5\<close> alone gives the next id 1, not -4, and a directory named
  by the largest \<^verbatim>\<open>int\<close> gives the smallest \<^verbatim>\<open>int\<close>.
\<close>

theorem C4_discovered_ids_counterexample:
  "getSnapshotsAndSnapshotId (listing [directory ''0'', directory ''x'']) snapshotsCfg =
     ([emptyPersister], 0, Some (ErrSyntax ''x''))
   \<and> discoveredIds (listing [directory ''0'', directory ''x'']) snapshotsCfg = [0]
   \<and> getSnapshotsAndSnapshotId (listing [directory ''-5'']) snapshotsCfg =
     ([emptyPersister], 1, None)
   \<and> discoveredIds (listing [directory ''-5'']) snapshotsCfg = [- 5]
   \<and> getSnapshotsAndSnapshotId (listing [directory ''9223372036854775807'']) snapshotsCfg =
     ([emptyPersister], - 9223372036854775808, None)
   \<and> discoveredIds (listing [directory ''9223372036854775807'']) snapshotsCfg =
     [9223372036854775807]"
  by (simp add: discovery_eval)

lemma map_of_mapStore: "map_of (mapStore k v m) = (map_of m)(k \<mapsto> v)"
proof (cases "k \<in> set (map fst m)")
  case True
  have "map_of (map (\<lambda>(k', w). if k' = k then (k', v) else (k', w)) m) x =
      (if x = k then (if k \<in> fst ` set m then Some v else None) else map_of m x)" for x
  proof (induction m)
    case Nil
    then show ?case by simp
  next
    case (Cons a m)
    then show ?case by (cases a) (force simp add: image_iff)
  qed
  with True show ?thesis
    by (auto simp add: mapStore_def fun_eq_iff)
next
  case False
  then have "map_of m k = None"
    by (simp add: map_of_eq_None_iff)
  with False show ?thesis
    by (auto simp add: mapStore_def fun_eq_iff map_add_def split: option.split)
qed

lemma opened_Cons_skip:
  "childError env cfg f = None \<Longrightarrow> childEntry env cfg f = None \<Longrightarrow>
   opened env cfg (f # files) = opened env cfg files"
  by (simp add: opened_def served_def List.map_filter_simps)

lemma opened_Cons_entry:
  "childError env cfg f = None \<Longrightarrow> childEntry env cfg f = Some e \<Longrightarrow>
   opened env cfg (f # files) = e # opened env cfg files"
  by (simp add: opened_def served_def List.map_filter_simps)

lemma opened_Cons_stop:
  "childError env cfg f = Some e \<Longrightarrow> opened env cfg (f # files) = []"
  by (simp add: opened_def served_def List.map_filter_simps)

lemma firstError_Cons:
  "firstError env cfg (f # files) =
     (if childError env cfg f = None then firstError env cfg files else childError env cfg f)"
  by (simp add: firstError_def)

lemma scanFiles_opened:
  "scanFiles env cfg files d = (d', err) \<Longrightarrow>
   map_of (foundMap d') = map_of (foundMap d) ++ map_of (rev (opened env cfg files))
   \<and> set (map fst (foundMap d')) =
       set (map fst (foundMap d)) \<union> set (map fst (opened env cfg files))
   \<and> lines d' = lines d @ replicate (length (opened env cfg files)) restoredLine
   \<and> err = firstError env cfg files"
proof (induction env cfg files d arbitrary: d' err rule: scanFiles.induct)
  case (1 env cfg d)
  then show ?case by (simp add: opened_def served_def firstError_def List.map_filter_simps)
next
  case (2 env cfg f files d)
  show ?case
  proof (cases "IsDir f")
    case False
    then have ce: "childError env cfg f = None" and ci: "childEntry env cfg f = None"
      by (simp_all add: childError_def childEntry_def)
    from False "2.prems" have "scanFiles env cfg files d = (d', err)" by simp
    from "2.IH"(1) [OF False this] show ?thesis
      by (simp add: opened_Cons_skip [OF ce ci] firstError_Cons ce)
  next
    case True
    show ?thesis
    proof (cases "Atoi (Name f)")
      case (Inl e)
      with True have ce: "childError env cfg f = Some e"
        by (simp add: childError_def)
      from True Inl "2.prems" have "d' = d" "err = Some e" by simp_all
      with ce show ?thesis
        by (simp add: opened_Cons_stop [OF ce] firstError_Cons)
    next
      case (Inr n)
      note parsed = this
      show ?thesis
      proof (cases "NewDB env (snapshotArg env cfg f)")
        case (Inl e)
        with True parsed have ce: "childError env cfg f = Some e"
          by (simp add: childError_def)
        from True parsed Inl "2.prems" have "d' = d" "err = Some e"
          by (simp_all add: snapshotArg_def)
        with ce show ?thesis
          by (simp add: opened_Cons_stop [OF ce] firstError_Cons)
      next
        case (Inr p)
        note db = this
        from True parsed db
        have ce: "childError env cfg f = None" and ci: "childEntry env cfg f = Some (n, p)"
          by (simp_all add: childError_def childEntry_def)
        let ?d1 = "d\<lparr>nextId := (if n > nextId d then n else nextId d),
                      lines := lines d @ [(LogDebug, ''restored snapshot'')],
                      foundMap := mapStore n p (foundMap d)\<rparr>"
        from True parsed db "2.prems"
        have sc: "scanFiles env cfg files ?d1 = (d', err)"
          by (simp add: snapshotArg_def)
        have ih: "map_of (foundMap d') = map_of (foundMap ?d1) ++ map_of (rev (opened env cfg files))
          \<and> set (map fst (foundMap d')) =
              set (map fst (foundMap ?d1)) \<union> set (map fst (opened env cfg files))
          \<and> lines d' = lines ?d1 @ replicate (length (opened env cfg files)) restoredLine
          \<and> err = firstError env cfg files"
          using True parsed db sc
          by (intro "2.IH"(2) [of n p]) (simp_all add: snapshotArg_def)
        have keys: "set (map fst (foundMap ?d1)) = insert n (set (map fst (foundMap d)))"
          by (auto simp add: keys_mapStore)
        have m: "map_of (foundMap ?d1) ++ R = map_of (foundMap d) ++ (map_of [(n, p)] ++ R)" for R
          by (auto simp add: map_of_mapStore fun_eq_iff map_add_def split: option.split)
        have op: "opened env cfg (f # files) = (n, p) # opened env cfg files"
          by (rule opened_Cons_entry [OF ce ci])
        from ih show ?thesis
          unfolding keys m op
          by (simp add: firstError_Cons ce restoredLine_def replicate_app_Cons_same)
      qed
    qed
  qed
qed

lemma discover_absent:
  "\<not> directoryExists env (FilePath cfg) \<Longrightarrow>
   discoverSnapshots env cfg = (\<lparr>foundMap = [], nextId = 0, lines = []\<rparr>, None)"
  by (simp add: discoverSnapshots_def)

lemma discover_opened:
  assumes "directoryExists env (FilePath cfg)" and "ReadDir env (FilePath cfg) = Inr files"
  shows "map_of (foundMap (fst (discoverSnapshots env cfg))) = map_of (rev (opened env cfg files))
       \<and> set (map fst (foundMap (fst (discoverSnapshots env cfg)))) =
           set (map fst (opened env cfg files))
       \<and> lines (fst (discoverSnapshots env cfg)) =
           replicate (length (opened env cfg files)) restoredLine
       \<and> snd (discoverSnapshots env cfg) = firstError env cfg files"
proof -
  obtain d err where sc: "scanFiles env cfg files \<lparr>foundMap = [], nextId = 0, lines = []\<rparr> = (d, err)"
    by (cases "scanFiles env cfg files \<lparr>foundMap = [], nextId = 0, lines = []\<rparr>")
  have ds: "foundMap (fst (discoverSnapshots env cfg)) = foundMap d"
    "lines (fst (discoverSnapshots env cfg)) = lines d"
    "snd (discoverSnapshots env cfg) = err"
    using assms sc by (cases err; simp add: discoverSnapshots_def)+
  from scanFiles_opened [OF sc] show ?thesis
    by (simp only: ds) simp
qed

lemma served_directory:
  assumes "f \<in> set (served env cfg files)" and "IsDir f"
  shows "\<exists>n p. Atoi (Name f) = Inr n \<and> NewDB env (snapshotArg env cfg f) = Inr p
           \<and> childEntry env cfg f = Some (n, p)"
proof -
  from assms(1) have "childError env cfg f = None"
    unfolding served_def by (auto dest: set_takeWhileD)
  with assms(2) show ?thesis
    by (auto simp add: childError_def childEntry_def split: sum.splits)
qed

lemmas children_eval =
  served_def firstError_def childError_def childEntry_def opened_def snapshotArg_def
  restoredLine_def located_def List.map_filter_simps

lemma dbAt_differ: "dbAt ''snapshots/007'' \<noteq> dbAt ''snapshots/7''"
proof
  assume "dbAt ''snapshots/007'' = dbAt ''snapshots/7''"
  then have "getResult (dbAt ''snapshots/007'') [] = getResult (dbAt ''snapshots/7'') []"
    by simp
  then show False
    by (simp add: dbAt_def holding_def emptyPersister_def)
qed

text \<open>
  C9, as amended. Without the snapshot directory, discovery returns the empty list,
  the id 0 and no error, and logs nothing. When the directory is there and cannot be
  listed, it returns the empty list, 0 and the error. Otherwise the children are taken
  in their order up to the first directory whose name does not parse or whose database
  does not open, and discovery returns the error of that one, or none when there is
  none. Every directory before it has a name that parses to an integer and a database
  that \<^verbatim>\<open>NewDB\<close> has opened; it is logged with one line and stored in the map under
  that integer, in the place of a directory stored under the same integer before it. So
  the ids of the returned list are the integers of these directories, each once and in
  ascending order, and the list holds for each id the database of the last directory
  with that integer. A file is skipped with no change and no line.
\<close>

theorem C9_discovery_children:
  "(\<not> directoryExists env (FilePath cfg) \<longrightarrow>
      getSnapshotsAndSnapshotId env cfg = ([], 0, None)
      \<and> lines (fst (discoverSnapshots env cfg)) = [])
   \<and> (directoryExists env (FilePath cfg) \<and> ReadDir env (FilePath cfg) = Inl e \<longrightarrow>
      getSnapshotsAndSnapshotId env cfg = ([], 0, Some e))
   \<and> (directoryExists env (FilePath cfg) \<and> ReadDir env (FilePath cfg) = Inr files \<longrightarrow>
      returnedError env cfg = firstError env cfg files
      \<and> (\<forall>f \<in> set (served env cfg files). IsDir f \<longrightarrow>
            (\<exists>n p. Atoi (Name f) = Inr n \<and> NewDB env (snapshotArg env cfg f) = Inr p
                   \<and> childEntry env cfg f = Some (n, p)))
      \<and> lines (fst (discoverSnapshots env cfg)) =
          replicate (length (opened env cfg files)) restoredLine
      \<and> discoveredIds env cfg = sort (remdups (map fst (opened env cfg files)))
      \<and> map Some (returnedList env cfg) =
          map (map_of (rev (opened env cfg files))) (discoveredIds env cfg))
   \<and> (\<not> IsDir f \<longrightarrow> scanFiles env cfg (f # rest) d = scanFiles env cfg rest d)"
proof (intro conjI impI)
  assume "\<not> directoryExists env (FilePath cfg)"
  from discover_absent [OF this]
  show "getSnapshotsAndSnapshotId env cfg = ([], 0, None)"
    and "lines (fst (discoverSnapshots env cfg)) = []"
    by (simp_all add: getSnapshotsAndSnapshotId_def getOrderedSnapshots_def orderedKeys_def)
next
  assume "directoryExists env (FilePath cfg) \<and> ReadDir env (FilePath cfg) = Inl e"
  then show "getSnapshotsAndSnapshotId env cfg = ([], 0, Some e)"
    by (simp add: getSnapshotsAndSnapshotId_def discoverSnapshots_def getOrderedSnapshots_def
        orderedKeys_def)
next
  assume a: "directoryExists env (FilePath cfg) \<and> ReadDir env (FilePath cfg) = Inr files"
  let ?m = "foundMap (fst (discoverSnapshots env cfg))"
  from a have l: "map_of ?m = map_of (rev (opened env cfg files))
       \<and> set (map fst ?m) = set (map fst (opened env cfg files))
       \<and> lines (fst (discoverSnapshots env cfg)) =
           replicate (length (opened env cfg files)) restoredLine
       \<and> snd (discoverSnapshots env cfg) = firstError env cfg files"
    by (intro discover_opened) simp_all
  from l show "returnedError env cfg = firstError env cfg files"
    by (simp add: returned_simps)
  show "\<forall>f \<in> set (served env cfg files). IsDir f \<longrightarrow>
      (\<exists>n p. Atoi (Name f) = Inr n \<and> NewDB env (snapshotArg env cfg f) = Inr p
             \<and> childEntry env cfg f = Some (n, p))"
    using served_directory by blast
  from l show "lines (fst (discoverSnapshots env cfg)) =
      replicate (length (opened env cfg files)) restoredLine"
    by simp
  have "sorted (sort (map fst ?m))" "distinct (sort (map fst ?m))"
    using discover_distinct [of env cfg] by simp_all
  moreover have "sorted (sort (remdups (map fst (opened env cfg files))))"
    "distinct (sort (remdups (map fst (opened env cfg files))))"
    by simp_all
  moreover have "set (sort (map fst ?m)) = set (sort (remdups (map fst (opened env cfg files))))"
    using l by simp
  ultimately have "sort (map fst ?m) = sort (remdups (map fst (opened env cfg files)))"
    by (rule sorted_distinct_set_unique)
  then show ids: "discoveredIds env cfg = sort (remdups (map fst (opened env cfg files)))"
    by (simp add: discoveredIds_def orderedKeys_def)
  have "map_of ?m key = Some (the (map_of ?m key))" if "key \<in> set (discoveredIds env cfg)" for key
  proof -
    from that have "key \<in> fst ` set ?m" by (simp add: discoveredIds_def orderedKeys_def)
    then have "map_of ?m key \<noteq> None" by (simp add: map_of_eq_None_iff)
    then show ?thesis by simp
  qed
  then have "map Some (returnedList env cfg) = map (map_of ?m) (discoveredIds env cfg)"
    by (simp add: returned_simps getOrderedSnapshots_def discoveredIds_def [symmetric])
  with l show "map Some (returnedList env cfg) =
      map (map_of (rev (opened env cfg files))) (discoveredIds env cfg)"
    by simp
next
  assume "\<not> IsDir f"
  then show "scanFiles env cfg (f # rest) d = scanFiles env cfg rest d"
    by simp
qed

theorem C9_discovery_children_witness:
  "sortedByName [plainFile ''0.lock'', directory ''007'', directory ''7'', directory ''8x'',
                 directory ''9'']
   \<and> returnedError (located [plainFile ''0.lock'', directory ''007'', directory ''7'',
         directory ''8x'', directory ''9'']) snapshotsCfg = Some (ErrSyntax ''8x'')
   \<and> lines (fst (discoverSnapshots (located [plainFile ''0.lock'', directory ''007'',
         directory ''7'', directory ''8x'', directory ''9'']) snapshotsCfg)) =
       [(LogDebug, ''restored snapshot''), (LogDebug, ''restored snapshot'')]
   \<and> discoveredIds (located [plainFile ''0.lock'', directory ''007'', directory ''7'',
         directory ''8x'', directory ''9'']) snapshotsCfg = [7]
   \<and> returnedList (located [plainFile ''0.lock'', directory ''007'', directory ''7'',
         directory ''8x'', directory ''9'']) snapshotsCfg = [dbAt ''snapshots/7'']"
proof -
  let ?files = "[plainFile ''0.lock'', directory ''007'', directory ''7'', directory ''8x'',
                 directory ''9'']"
  let ?env = "located ?files"
  have s: "sortedByName ?files"
    by (simp add: sortedByName_def directory_def plainFile_def)
  have a: "directoryExists ?env (FilePath snapshotsCfg)
      \<and> ReadDir ?env (FilePath snapshotsCfg) = Inr ?files"
    by (simp add: directoryExists_def IsNotExist_def listing_def located_def)
  have o: "opened ?env snapshotsCfg ?files =
      [(7, dbAt ''snapshots/007''), (7, dbAt ''snapshots/7'')]"
    and e: "firstError ?env snapshotsCfg ?files = Some (ErrSyntax ''8x'')"
    by (simp_all add: children_eval discovery_eval snapshotsCfg_def)
  from C9_discovery_children [of ?env snapshotsCfg _ ?files] a
  have "returnedError ?env snapshotsCfg = firstError ?env snapshotsCfg ?files
      \<and> lines (fst (discoverSnapshots ?env snapshotsCfg)) =
          replicate (length (opened ?env snapshotsCfg ?files)) restoredLine
      \<and> discoveredIds ?env snapshotsCfg = sort (remdups (map fst (opened ?env snapshotsCfg ?files)))
      \<and> map Some (returnedList ?env snapshotsCfg) =
          map (map_of (rev (opened ?env snapshotsCfg ?files))) (discoveredIds ?env snapshotsCfg)"
    by blast
  then have "returnedError ?env snapshotsCfg = Some (ErrSyntax ''8x'')
      \<and> lines (fst (discoverSnapshots ?env snapshotsCfg)) =
          [(LogDebug, ''restored snapshot''), (LogDebug, ''restored snapshot'')]
      \<and> discoveredIds ?env snapshotsCfg = [7]
      \<and> map Some (returnedList ?env snapshotsCfg) = [Some (dbAt ''snapshots/7'')]"
    unfolding o e by (simp add: restoredLine_def)
  then have "returnedError ?env snapshotsCfg = Some (ErrSyntax ''8x'')
      \<and> lines (fst (discoverSnapshots ?env snapshotsCfg)) =
          [(LogDebug, ''restored snapshot''), (LogDebug, ''restored snapshot'')]
      \<and> discoveredIds ?env snapshotsCfg = [7]
      \<and> returnedList ?env snapshotsCfg = [dbAt ''snapshots/7'']"
    by (auto simp add: map_eq_Cons_conv)
  with s show ?thesis by blast
qed

text \<open>
  A directory whose name parses as a non-negative integer does not become a snapshot
  when its database does not open, nor when a directory before it has stopped
  discovery, and it does not stay one when a later directory has a name that parses to
  the same integer. The listings are in the order of \<^verbatim>\<open>ioutil.ReadDir\<close>.
\<close>

theorem C9_discovery_children_counterexample:
  "Atoi ''0'' = Inr 0
   \<and> getSnapshotsAndSnapshotId
       ((listing [directory ''0''])\<lparr>NewDB := (\<lambda>arg. Inl (ErrOther ''open''))\<rparr>) snapshotsCfg =
       ([], 0, Some (ErrOther ''open''))
   \<and> sortedByName [directory ''0x'', directory ''1'']
   \<and> Atoi ''1'' = Inr 1
   \<and> getSnapshotsAndSnapshotId (listing [directory ''0x'', directory ''1'']) snapshotsCfg =
       ([], 0, Some (ErrSyntax ''0x''))
   \<and> sortedByName [directory ''007'', directory ''7'']
   \<and> Atoi ''007'' = Inr 7
   \<and> Atoi ''7'' = Inr 7
   \<and> getSnapshotsAndSnapshotId (located [directory ''007'', directory ''7'']) snapshotsCfg =
       ([dbAt ''snapshots/7''], 8, None)
   \<and> dbAt ''snapshots/007'' \<noteq> dbAt ''snapshots/7''"
  using dbAt_differ
  by (simp add: discovery_eval located_def snapshotsCfg_def sortedByName_def)

end
